theory Spec2Isabelle
  imports Complex_Main
begin

section \<open>Data model\<close>

text \<open>
  The module under verification is \<^verbatim>\<open>llama_index/query_engine/graph_query_engine.py\<close>,
  the class \<^verbatim>\<open>ComposableGraphQueryEngine\<close>. Its collaborators (nodes, responses, the
  graph, sub-indices, query engines, the callback manager) are imported from other
  modules; they are modelled here by the interface the class uses.

  The type parameter \<open>'s\<close> is the type of relevance scores: the class only copies
  scores, it never computes with them.
\<close>

text \<open>
  \<^verbatim>\<open>TextNode(text=...)\<close> and \<^verbatim>\<open>IndexNode\<close> (a text node that also carries an
  \<^verbatim>\<open>index_id\<close>). The class tells them apart with \<^verbatim>\<open>isinstance(node, IndexNode)\<close>.
\<close>

datatype BaseNode =
    TextNode string
  | IndexNode string string  \<comment> \<open>text, index_id\<close>

fun is_IndexNode :: "BaseNode \<Rightarrow> bool" where
  "is_IndexNode (IndexNode t i) = True"
| "is_IndexNode (TextNode t) = False"

record 's NodeWithScore =
  node :: BaseNode
  score :: 's

record 's Response =
  response :: string
  source_nodes :: "'s NodeWithScore list"

text \<open>
  Modelled from the spec: the string conversion of a response, \<^verbatim>\<open>str(response)\<close>, whose
  code is in \<^verbatim>\<open>llama_index.response.schema\<close>. The spec calls it the response's answer
  text. The statements below name it \<open>str_response\<close> and do not depend on what it is.
\<close>

definition str_response :: "'s Response \<Rightarrow> string" where
  "str_response r = response r"

record QueryBundle =
  query_str :: string

text \<open>
  Every exception the class can see. It raises none itself: a \<open>KeyError\<close> comes from
  the graph's lookup, anything else from a query engine or from an index that builds one.
\<close>

datatype error = KeyError string | EngineError string

text \<open>
  A query engine as the class uses it: \<^verbatim>\<open>retrieve(query_bundle)\<close> and
  \<^verbatim>\<open>synthesize(query_bundle, nodes, additional_source_nodes=None)\<close>. The third argument is
  \<open>None\<close> where the call site passes two arguments only. Either call may raise.
  A call is a function of its arguments and it returns: what an engine does besides
  (input and output, calls of a language model) is not the class's and is not modelled.
\<close>

record 's BaseQueryEngine =
  retrieve :: "QueryBundle \<Rightarrow> error + 's NodeWithScore list"
  synthesize :: "QueryBundle \<Rightarrow> 's NodeWithScore list \<Rightarrow> 's NodeWithScore list option
                   \<Rightarrow> error + 's Response"

text \<open>
  A sub-index: whether it is a \<^verbatim>\<open>VectorStoreIndex\<close>, and \<^verbatim>\<open>as_query_engine\<close>, called
  either with the keyword \<^verbatim>\<open>similarity_top_k\<close> or with no argument.
\<close>

record 's BaseIndex =
  is_VectorStoreIndex :: bool
  as_query_engine :: "int option \<Rightarrow> error + 's BaseQueryEngine"

text \<open>
  Modelled from the spec: the callback manager (\<^verbatim>\<open>llama_index.callbacks\<close>), the
  observability hook that is told when a query and a retrieval start and end. It has no
  effect on control flow or on returned values, so it is a log of events;
  \<^verbatim>\<open>on_event_start\<close> returns the identifier of the event, here its position in the log.
\<close>

datatype CBEventType = QUERY | RETRIEVE

datatype 's EventPayload =
    QUERY_STR string
  | NODES "'s NodeWithScore list"
  | RESPONSE "'s Response"

datatype 's CBEvent =
    EventStart CBEventType "'s EventPayload option" nat
  | EventEnd CBEventType "'s EventPayload option" nat

type_synonym 's CallbackManager = "'s CBEvent list"

text \<open>
  Modelled from the spec: \<^verbatim>\<open>CallbackManager.on_event_start\<close> and
  \<^verbatim>\<open>CallbackManager.on_event_end\<close>, which record the event and do nothing else.
\<close>

definition on_event_start ::
  "CBEventType \<Rightarrow> 's EventPayload option \<Rightarrow> 's CallbackManager \<Rightarrow> nat \<times> 's CallbackManager" where
  "on_event_start ty payload cm = (length cm, cm @ [EventStart ty payload (length cm)])"

definition on_event_end ::
  "CBEventType \<Rightarrow> 's EventPayload option \<Rightarrow> nat \<Rightarrow> 's CallbackManager \<Rightarrow> 's CallbackManager" where
  "on_event_end ty payload event_id cm = cm @ [EventEnd ty payload event_id]"

text \<open>
  The graph as the class uses it: \<^verbatim>\<open>root_id\<close>, \<^verbatim>\<open>get_index(index_id)\<close>, which gives
  the sub-index of an identifier or raises (the specification: it fails for an identifier
  the graph does not have), and the callback manager of its service context.
\<close>

record 's ComposableGraph =
  get_index :: "string \<Rightarrow> error + 's BaseIndex"
  root_id :: string
  service_context_callback_manager :: "'s CallbackManager"

text \<open>
  The attributes of \<^verbatim>\<open>ComposableGraphQueryEngine\<close>: \<^verbatim>\<open>_graph\<close>,
  \<^verbatim>\<open>_custom_query_engines\<close>, \<^verbatim>\<open>_recursive\<close>, \<^verbatim>\<open>_similarity_top_k\<close>, and the
  \<^verbatim>\<open>callback_manager\<close> of the base class. Every method takes the object and returns
  it, so that what a method writes is visible in the model.
\<close>

record 's ComposableGraphQueryEngine =
  graph :: "'s ComposableGraph"
  custom_query_engines :: "string \<Rightarrow> 's BaseQueryEngine option"
  recursive :: bool
  similarity_top_k :: int
  callback_manager :: "'s CallbackManager"

section \<open>Operations\<close>

text \<open>
  \<^verbatim>\<open>__init__\<close>. \<^verbatim>\<open>custom_query_engines or {}\<close> is the empty dictionary when the argument
  is \<open>None\<close>; the defaults of \<^verbatim>\<open>recursive\<close> and \<^verbatim>\<open>similarity_top_k\<close> are the caller's.
\<close>

definition init ::
  "'s ComposableGraph \<Rightarrow> (string \<Rightarrow> 's BaseQueryEngine option) option \<Rightarrow> bool \<Rightarrow> int
     \<Rightarrow> 's ComposableGraphQueryEngine" where
  "init g custom rec top_k =
     \<lparr> graph = g,
       custom_query_engines = (case custom of None \<Rightarrow> Map.empty | Some m \<Rightarrow> m),
       recursive = rec,
       similarity_top_k = top_k,
       callback_manager = service_context_callback_manager g \<rparr>"

text \<open>
  Line 58, \<^verbatim>\<open>index_id = index_id or self._graph.root_id\<close>: Python's \<^verbatim>\<open>or\<close> takes the
  right operand when the left one is falsy, which \<open>None\<close> and the empty string both are.
\<close>

definition default_index_id :: "'s ComposableGraphQueryEngine \<Rightarrow> string option \<Rightarrow> string" where
  "default_index_id self index_id =
     (case index_id of
        None \<Rightarrow> root_id (graph self)
      | Some i \<Rightarrow> if i = [] then root_id (graph self) else i)"

text \<open>Lines 63 to 72, the choice of the query engine.\<close>

definition get_query_engine ::
  "'s ComposableGraphQueryEngine \<Rightarrow> string \<Rightarrow> error + 's BaseQueryEngine" where
  "get_query_engine self index_id =
     (case custom_query_engines self index_id of
        Some query_engine \<Rightarrow> Inr query_engine
      | None \<Rightarrow>
          (case get_index (graph self) index_id of
             Inl e \<Rightarrow> Inl e
           | Inr idx \<Rightarrow>
               if is_VectorStoreIndex idx
               then as_query_engine idx (Some (similarity_top_k self))
               else as_query_engine idx None))"

text \<open>Lines 59 to 61, 74, 76 to 80 and 98 to 102: the four calls of the callback manager.\<close>

definition start_query ::
  "QueryBundle \<Rightarrow> 's ComposableGraphQueryEngine \<Rightarrow> nat \<times> 's ComposableGraphQueryEngine" where
  "start_query q self =
     (let (event_id, cm) = on_event_start QUERY (Some (QUERY_STR (query_str q))) (callback_manager self)
      in (event_id, self\<lparr>callback_manager := cm\<rparr>))"

definition start_retrieve ::
  "'s ComposableGraphQueryEngine \<Rightarrow> nat \<times> 's ComposableGraphQueryEngine" where
  "start_retrieve self =
     (let (retrieve_event_id, cm) = on_event_start RETRIEVE None (callback_manager self)
      in (retrieve_event_id, self\<lparr>callback_manager := cm\<rparr>))"

definition end_retrieve ::
  "'s NodeWithScore list \<Rightarrow> nat \<Rightarrow> 's ComposableGraphQueryEngine \<Rightarrow> 's ComposableGraphQueryEngine" where
  "end_retrieve nodes retrieve_event_id self =
     self\<lparr>callback_manager :=
       on_event_end RETRIEVE (Some (NODES nodes)) retrieve_event_id (callback_manager self)\<rparr>"

definition end_query ::
  "'s Response \<Rightarrow> nat \<Rightarrow> 's ComposableGraphQueryEngine \<Rightarrow> 's ComposableGraphQueryEngine" where
  "end_query resp event_id self =
     self\<lparr>callback_manager :=
       on_event_end QUERY (Some (RESPONSE resp)) event_id (callback_manager self)\<rparr>"

text \<open>
  Lines 92 to 103: the response of \<^verbatim>\<open>synthesize\<close> is reported to the callback manager
  and returned; an exception of \<^verbatim>\<open>synthesize\<close> leaves the method before the report.
\<close>

definition return_response ::
  "error + 's Response \<Rightarrow> nat \<Rightarrow> 's ComposableGraphQueryEngine
     \<Rightarrow> (error + 's Response) \<times> 's ComposableGraphQueryEngine" where
  "return_response synthesized event_id self =
     (case synthesized of
        Inl e \<Rightarrow> (Inl e, self)
      | Inr resp \<Rightarrow> (Inr resp, end_query resp event_id self))"

text \<open>
  \<^verbatim>\<open>_query_index\<close>, \<^verbatim>\<open>_fetch_recursive_nodes\<close> and the loop of lines 84 to 91.

  The two methods call each other, and nothing in them bounds the depth of the calls.
  The first argument of the model is that bound: the number of activations of
  \<^verbatim>\<open>_query_index\<close> that may be nested. \<open>None\<close> says that the bound was too small, so a
  call that has the value \<open>None\<close> for every bound is one that never returns.
  A value \<open>Some (Inl e, self')\<close> is the exception \<open>e\<close>, \<open>Some (Inr r, self')\<close> the returned
  \<open>r\<close>, each with the object as the call left it.

  The loop takes the two lists it appends to, \<^verbatim>\<open>nodes_for_synthesis\<close> and
  \<^verbatim>\<open>additional_source_nodes\<close>, as a pair.
\<close>

fun query_index ::
      "nat \<Rightarrow> QueryBundle \<Rightarrow> string option \<Rightarrow> int \<Rightarrow> 's ComposableGraphQueryEngine
         \<Rightarrow> ((error + 's Response) \<times> 's ComposableGraphQueryEngine) option"
  and fetch_recursive_nodes ::
      "nat \<Rightarrow> 's NodeWithScore \<Rightarrow> QueryBundle \<Rightarrow> int \<Rightarrow> 's ComposableGraphQueryEngine
         \<Rightarrow> ((error + 's NodeWithScore \<times> 's NodeWithScore list) \<times> 's ComposableGraphQueryEngine) option"
  and fetch_loop ::
      "nat \<Rightarrow> 's NodeWithScore list \<Rightarrow> QueryBundle \<Rightarrow> int
         \<Rightarrow> 's NodeWithScore list \<times> 's NodeWithScore list \<Rightarrow> 's ComposableGraphQueryEngine
         \<Rightarrow> ((error + 's NodeWithScore list \<times> 's NodeWithScore list) \<times> 's ComposableGraphQueryEngine) option"
where
  "query_index 0 q index_id level self = None"
| "query_index (Suc depth) q index_id level self =
     (case start_query q self of (event_id, self1) \<Rightarrow>
      (case get_query_engine self1 (default_index_id self1 index_id) of
         Inl e \<Rightarrow> Some (Inl e, self1)
       | Inr query_engine \<Rightarrow>
          (case start_retrieve self1 of (retrieve_event_id, self2) \<Rightarrow>
           (case retrieve query_engine q of
              Inl e \<Rightarrow> Some (Inl e, self2)
            | Inr nodes \<Rightarrow>
               (case end_retrieve nodes retrieve_event_id self2 of self3 \<Rightarrow>
                  if recursive self3 then
                    (case fetch_loop depth nodes q level ([], []) self3 of
                       None \<Rightarrow> None
                     | Some (Inl e, self4) \<Rightarrow> Some (Inl e, self4)
                     | Some (Inr (nodes_for_synthesis, additional_source_nodes), self4) \<Rightarrow>
                         Some (return_response
                                 (synthesize query_engine q nodes_for_synthesis
                                    (Some additional_source_nodes))
                                 event_id self4))
                  else
                    Some (return_response (synthesize query_engine q nodes None)
                            event_id self3))))))"
| "fetch_recursive_nodes depth node_with_score q level self =
     (case node node_with_score of
        IndexNode t index_id \<Rightarrow>
          (case query_index depth q (Some index_id) (level + 1) self of
             None \<Rightarrow> None
           | Some (Inl e, self') \<Rightarrow> Some (Inl e, self')
           | Some (Inr resp, self') \<Rightarrow>
               Some (Inr (\<lparr> node = TextNode (str_response resp), score = score node_with_score \<rparr>,
                          source_nodes resp),
                     self'))
      | TextNode t \<Rightarrow> Some (Inr (node_with_score, []), self))"
| "fetch_loop depth [] q level acc self = Some (Inr acc, self)"
| "fetch_loop depth (node_with_score # nodes) q level acc self =
     (case fetch_recursive_nodes depth node_with_score q level self of
        None \<Rightarrow> None
      | Some (Inl e, self') \<Rightarrow> Some (Inl e, self')
      | Some (Inr (new_node_with_score, source_nodes'), self') \<Rightarrow>
          fetch_loop depth nodes q level
            (fst acc @ [new_node_with_score], snd acc @ source_nodes') self')"

text \<open>\<^verbatim>\<open>_query\<close> and \<^verbatim>\<open>_aquery\<close>: the body of the coroutine is the body of the method.\<close>

definition query ::
  "nat \<Rightarrow> QueryBundle \<Rightarrow> 's ComposableGraphQueryEngine
     \<Rightarrow> ((error + 's Response) \<times> 's ComposableGraphQueryEngine) option" where
  "query depth q self = query_index depth q None 0 self"

definition aquery ::
  "nat \<Rightarrow> QueryBundle \<Rightarrow> 's ComposableGraphQueryEngine
     \<Rightarrow> ((error + 's Response) \<times> 's ComposableGraphQueryEngine) option" where
  "aquery depth q self = query_index depth q None 0 self"

section \<open>Notions used by the statements\<close>

text \<open>
  The four attributes that the constructor sets from its arguments. The fifth attribute,
  the callback manager, is the one a query writes to.
\<close>

definition configuration ::
  "'s ComposableGraphQueryEngine
     \<Rightarrow> 's ComposableGraph \<times> (string \<Rightarrow> 's BaseQueryEngine option) \<times> bool \<times> int" where
  "configuration self =
     (graph self, custom_query_engines self, recursive self, similarity_top_k self)"

text \<open>
  The object as \<^verbatim>\<open>_query_index\<close> has left it when control reaches line 63 (the query
  event is open), line 75 (the retrieve event is open too) and line 82 (the retrieve event
  is closed), and the identifier of the query event.
\<close>

definition query_event_id :: "QueryBundle \<Rightarrow> 's ComposableGraphQueryEngine \<Rightarrow> nat" where
  "query_event_id q self = fst (start_query q self)"

definition at_line_63 ::
  "QueryBundle \<Rightarrow> 's ComposableGraphQueryEngine \<Rightarrow> 's ComposableGraphQueryEngine" where
  "at_line_63 q self = snd (start_query q self)"

definition at_line_75 ::
  "QueryBundle \<Rightarrow> 's ComposableGraphQueryEngine \<Rightarrow> 's ComposableGraphQueryEngine" where
  "at_line_75 q self = snd (start_retrieve (at_line_63 q self))"

definition at_line_82 ::
  "QueryBundle \<Rightarrow> 's NodeWithScore list \<Rightarrow> 's ComposableGraphQueryEngine
     \<Rightarrow> 's ComposableGraphQueryEngine" where
  "at_line_82 q nodes self =
     end_retrieve nodes (fst (start_retrieve (at_line_63 q self))) (at_line_75 q self)"

text \<open>
  Lines 74 to 103 of \<^verbatim>\<open>_query_index\<close>: what the method does with the query engine
  that lines 63 to 72 have chosen, from the object as it is at line 63 and with the
  identifier of the open query event.
\<close>

definition query_with ::
  "'s BaseQueryEngine \<Rightarrow> nat \<Rightarrow> nat \<Rightarrow> QueryBundle \<Rightarrow> int \<Rightarrow> 's ComposableGraphQueryEngine
     \<Rightarrow> ((error + 's Response) \<times> 's ComposableGraphQueryEngine) option" where
  "query_with query_engine event_id depth q level self1 =
     (case start_retrieve self1 of (retrieve_event_id, self2) \<Rightarrow>
      (case retrieve query_engine q of
         Inl e \<Rightarrow> Some (Inl e, self2)
       | Inr nodes \<Rightarrow>
          (case end_retrieve nodes retrieve_event_id self2 of self3 \<Rightarrow>
             if recursive self3 then
               (case fetch_loop depth nodes q level ([], []) self3 of
                  None \<Rightarrow> None
                | Some (Inl e, self4) \<Rightarrow> Some (Inl e, self4)
                | Some (Inr (nodes_for_synthesis, additional_source_nodes), self4) \<Rightarrow>
                    Some (return_response
                            (synthesize query_engine q nodes_for_synthesis
                               (Some additional_source_nodes))
                            event_id self4))
             else
               Some (return_response (synthesize query_engine q nodes None)
                       event_id self3))))"

text \<open>
  Step 4 of the specification of \<open>resolve\<close>, in its words: the expansion rule is applied
  to each fragment in the original order, each application giving a fragment and a list
  of extra sources; the fragments are collected in order and the lists of extra sources
  are concatenated in order. The expansion rule is \<open>fetch_recursive_nodes\<close>; the first
  application that raises or does not return ends the sequence.
\<close>

fun expansions ::
  "nat \<Rightarrow> 's NodeWithScore list \<Rightarrow> QueryBundle \<Rightarrow> int \<Rightarrow> 's ComposableGraphQueryEngine
     \<Rightarrow> ((error + ('s NodeWithScore \<times> 's NodeWithScore list) list)
          \<times> 's ComposableGraphQueryEngine) option" where
  "expansions depth [] q level self = Some (Inr [], self)"
| "expansions depth (fragment # fragments) q level self =
     (case fetch_recursive_nodes depth fragment q level self of
        None \<Rightarrow> None
      | Some (Inl e, self') \<Rightarrow> Some (Inl e, self')
      | Some (Inr expanded, self') \<Rightarrow>
          (case expansions depth fragments q level self' of
             None \<Rightarrow> None
           | Some (Inl e, self'') \<Rightarrow> Some (Inl e, self'')
           | Some (Inr rest, self'') \<Rightarrow> Some (Inr (expanded # rest), self'')))"

definition fragments_for_synthesis ::
  "('s NodeWithScore \<times> 's NodeWithScore list) list \<Rightarrow> 's NodeWithScore list" where
  "fragments_for_synthesis expanded = map fst expanded"

definition additional_sources ::
  "('s NodeWithScore \<times> 's NodeWithScore list) list \<Rightarrow> 's NodeWithScore list" where
  "additional_sources expanded = concat (map snd expanded)"

section \<open>Example graphs\<close>

text \<open>
  Two query engines over a fixed list of retrieved nodes: one answers with a fixed text
  and cites the nodes it was given; the other answers with the texts of the nodes it was
  given and cites them and the additional source nodes.
\<close>

fun node_text :: "BaseNode \<Rightarrow> string" where
  "node_text (TextNode t) = t"
| "node_text (IndexNode t i) = t"

definition fixed_engine :: "real NodeWithScore list \<Rightarrow> string \<Rightarrow> real BaseQueryEngine" where
  "fixed_engine nodes answer =
     \<lparr> retrieve = (\<lambda>q. Inr nodes),
       synthesize = (\<lambda>q ns extra. Inr \<lparr> response = answer, source_nodes = ns \<rparr>) \<rparr>"

definition echo_engine :: "real NodeWithScore list \<Rightarrow> real BaseQueryEngine" where
  "echo_engine nodes =
     \<lparr> retrieve = (\<lambda>q. Inr nodes),
       synthesize = (\<lambda>q ns extra.
          Inr \<lparr> response = concat (map (\<lambda>n. node_text (node n)) ns),
                source_nodes = ns @ (case extra of None \<Rightarrow> [] | Some xs \<Rightarrow> xs) \<rparr>) \<rparr>"

text \<open>
  Modelled from the spec: \<^verbatim>\<open>get_index\<close> of a graph that keeps its sub-indices in a
  dictionary. It fails, with a \<open>KeyError\<close>, for an identifier that is not a key.
\<close>

definition index_lookup ::
  "(string \<Rightarrow> real BaseIndex option) \<Rightarrow> string \<Rightarrow> error + real BaseIndex" where
  "index_lookup indices index_id =
     (case indices index_id of
        None \<Rightarrow> Inl (KeyError index_id)
      | Some idx \<Rightarrow> Inr idx)"

definition q0 :: QueryBundle where
  "q0 = \<lparr> query_str = ''q'' \<rparr>"

definition hello :: "real NodeWithScore" where
  "hello = \<lparr> node = TextNode ''hello'', score = 0.5 \<rparr>"

definition see_B :: "real NodeWithScore" where
  "see_B = \<lparr> node = IndexNode [] ''B'', score = 0.9 \<rparr>"

text \<open>
  The scenario of the specification: the root \<open>A\<close> is a vector index whose retrieval
  gives one placeholder for \<open>B\<close> with score 0.9 (as many copies of it as the top-k
  asks for, one when none is given); \<open>B\<close> retrieves the plain fragment \<open>hello\<close> with
  score 0.5 and answers \<open>hello world\<close>, citing it.
\<close>

definition index_A :: "real BaseIndex" where
  "index_A =
     \<lparr> is_VectorStoreIndex = True,
       as_query_engine =
         (\<lambda>k. Inr (echo_engine (replicate (case k of None \<Rightarrow> 1 | Some n \<Rightarrow> nat n) see_B))) \<rparr>"

definition index_B :: "real BaseIndex" where
  "index_B =
     \<lparr> is_VectorStoreIndex = False,
       as_query_engine = (\<lambda>k. Inr (fixed_engine [hello] ''hello world'')) \<rparr>"

definition scenario_graph :: "real ComposableGraph" where
  "scenario_graph =
     \<lparr> get_index = index_lookup [''A'' \<mapsto> index_A, ''B'' \<mapsto> index_B],
       root_id = ''A'',
       service_context_callback_manager = [] \<rparr>"

definition scenario :: "real ComposableGraphQueryEngine" where
  "scenario = init scenario_graph None True 1"

text \<open>The same graph, queried without recursion.\<close>

definition scenario_flat :: "real ComposableGraphQueryEngine" where
  "scenario_flat = init scenario_graph None False 1"

text \<open>
  The same graph with a custom query engine for the root \<open>A\<close> and one for \<open>X\<close>, an
  identifier that the graph does not have.
\<close>

definition scenario_custom :: "real ComposableGraphQueryEngine" where
  "scenario_custom =
     init scenario_graph
       (Some [''A'' \<mapsto> fixed_engine [hello] ''custom A'',
              ''X'' \<mapsto> fixed_engine [hello] ''custom X''])
       True 1"

text \<open>A graph with one index, \<open>B\<close>.\<close>

definition single_graph :: "real ComposableGraph" where
  "single_graph =
     \<lparr> get_index = index_lookup [''B'' \<mapsto> index_B],
       root_id = ''B'',
       service_context_callback_manager = [] \<rparr>"

definition single :: "real ComposableGraphQueryEngine" where
  "single = init single_graph None True 1"

text \<open>A graph with a cycle: the retrieval of its one index gives a placeholder for itself.\<close>

definition see_C :: "real NodeWithScore" where
  "see_C = \<lparr> node = IndexNode [] ''C'', score = 1 \<rparr>"

definition index_C :: "real BaseIndex" where
  "index_C =
     \<lparr> is_VectorStoreIndex = False,
       as_query_engine = (\<lambda>k. Inr (echo_engine [see_C])) \<rparr>"

definition cyclic_graph :: "real ComposableGraph" where
  "cyclic_graph =
     \<lparr> get_index = index_lookup [''C'' \<mapsto> index_C],
       root_id = ''C'',
       service_context_callback_manager = [] \<rparr>"

definition cyclic :: "real ComposableGraphQueryEngine" where
  "cyclic = init cyclic_graph None True 1"

text \<open>The response of \<open>B\<close> in these graphs.\<close>

definition answer_B :: "real Response" where
  "answer_B = \<lparr> response = ''hello world'', source_nodes = [hello] \<rparr>"

text \<open>
  The response of the root \<open>A\<close> of the scenario, and the scenario's object after one
  query: the callback manager has seen the query on \<open>A\<close>, its retrieval, and inside
  it the query on \<open>B\<close>.
\<close>

definition answer_A :: "real Response" where
  "answer_A =
     \<lparr> response = ''hello world'',
       source_nodes = [\<lparr> node = TextNode ''hello world'', score = 0.9 \<rparr>, hello] \<rparr>"

definition scenario_log :: "real CallbackManager" where
  "scenario_log =
     [EventStart QUERY (Some (QUERY_STR ''q'')) 0,
      EventStart RETRIEVE None 1,
      EventEnd RETRIEVE (Some (NODES [see_B])) 1,
      EventStart QUERY (Some (QUERY_STR ''q'')) 3,
      EventStart RETRIEVE None 4,
      EventEnd RETRIEVE (Some (NODES [hello])) 4,
      EventEnd QUERY (Some (RESPONSE answer_B)) 3,
      EventEnd QUERY (Some (RESPONSE answer_A)) 0]"

definition scenario_after :: "real ComposableGraphQueryEngine" where
  "scenario_after = scenario\<lparr>callback_manager := scenario_log\<rparr>"

text \<open>
  A graph whose one index retrieves a plain fragment and then a placeholder for \<open>Y\<close>,
  an identifier that the graph does not have.
\<close>

definition see_Y :: "real NodeWithScore" where
  "see_Y = \<lparr> node = IndexNode [] ''Y'', score = 0.7 \<rparr>"

definition index_D :: "real BaseIndex" where
  "index_D =
     \<lparr> is_VectorStoreIndex = False,
       as_query_engine = (\<lambda>k. Inr (echo_engine [hello, see_Y])) \<rparr>"

definition dangling_graph :: "real ComposableGraph" where
  "dangling_graph =
     \<lparr> get_index = index_lookup [''D'' \<mapsto> index_D],
       root_id = ''D'',
       service_context_callback_manager = [] \<rparr>"

definition dangling :: "real ComposableGraphQueryEngine" where
  "dangling = init dangling_graph None True 1"

definition dangling_flat :: "real ComposableGraphQueryEngine" where
  "dangling_flat = init dangling_graph None False 1"

text \<open>
  A graph for the choice of the query engine: \<open>A\<close> and \<open>V\<close> are the vector index of the
  scenario, which retrieves as many placeholders as the top-k says; \<open>P\<close> is not a vector
  index, and its query engine tells in its answer whether it was built with a top-k. The
  object has a custom query engine for \<open>A\<close>, a top-k of 2 and no recursion.
\<close>

definition index_P :: "real BaseIndex" where
  "index_P =
     \<lparr> is_VectorStoreIndex = False,
       as_query_engine =
         (\<lambda>k. Inr (fixed_engine [hello]
                      (case k of None \<Rightarrow> ''no top-k'' | Some n \<Rightarrow> ''top-k''))) \<rparr>"

definition selection_graph :: "real ComposableGraph" where
  "selection_graph =
     \<lparr> get_index = index_lookup [''A'' \<mapsto> index_A, ''V'' \<mapsto> index_A, ''P'' \<mapsto> index_P],
       root_id = ''A'',
       service_context_callback_manager = [] \<rparr>"

definition selection :: "real ComposableGraphQueryEngine" where
  "selection =
     init selection_graph (Some [''A'' \<mapsto> fixed_engine [hello] ''custom A'']) False 2"

text \<open>
  A graph and a registry that both have an entry for the empty identifier; the root is
  \<open>B\<close>.
\<close>

definition index_E :: "real BaseIndex" where
  "index_E =
     \<lparr> is_VectorStoreIndex = False,
       as_query_engine = (\<lambda>k. Inr (fixed_engine [hello] ''index of the empty key'')) \<rparr>"

definition empty_key_graph :: "real ComposableGraph" where
  "empty_key_graph =
     \<lparr> get_index = index_lookup [[] \<mapsto> index_E, ''B'' \<mapsto> index_B],
       root_id = ''B'',
       service_context_callback_manager = [] \<rparr>"

definition empty_key :: "real ComposableGraphQueryEngine" where
  "empty_key =
     init empty_key_graph (Some [[] \<mapsto> fixed_engine [hello] ''custom of the empty key''])
       False 1"

text \<open>
  A graph whose root retrieves a placeholder for \<open>B\<close>, then one for \<open>Y\<close>, which the
  graph does not have, then one for \<open>B\<close> again.
\<close>

definition index_M :: "real BaseIndex" where
  "index_M =
     \<lparr> is_VectorStoreIndex = False,
       as_query_engine = (\<lambda>k. Inr (echo_engine [see_B, see_Y, see_B])) \<rparr>"

definition mixed_graph :: "real ComposableGraph" where
  "mixed_graph =
     \<lparr> get_index = index_lookup [''M'' \<mapsto> index_M, ''B'' \<mapsto> index_B],
       root_id = ''M'',
       service_context_callback_manager = [] \<rparr>"

definition mixed :: "real ComposableGraphQueryEngine" where
  "mixed = init mixed_graph None True 1"

section \<open>The configuration is all a query reads\<close>

lemma configuration_start_query: "configuration (snd (start_query q self)) = configuration self"
  by (simp add: start_query_def on_event_start_def configuration_def)

lemma configuration_start_retrieve: "configuration (snd (start_retrieve self)) = configuration self"
  by (simp add: start_retrieve_def on_event_start_def configuration_def)

lemma configuration_end_retrieve: "configuration (end_retrieve ns i self) = configuration self"
  by (simp add: end_retrieve_def configuration_def)

lemma configuration_return_response:
  "configuration (snd (return_response r i self)) = configuration self"
  by (simp add: return_response_def end_query_def configuration_def split: sum.splits)

lemma configuration_at_line_63: "configuration (at_line_63 q self) = configuration self"
  by (simp add: at_line_63_def configuration_start_query)

lemma configuration_at_line_75: "configuration (at_line_75 q self) = configuration self"
  by (simp add: at_line_75_def configuration_start_retrieve configuration_at_line_63)

lemma configuration_at_line_82: "configuration (at_line_82 q nodes self) = configuration self"
  by (simp add: at_line_82_def configuration_end_retrieve configuration_at_line_75)

lemma get_query_engine_configuration:
  "configuration s = configuration t \<Longrightarrow> get_query_engine s i = get_query_engine t i"
  by (simp add: configuration_def get_query_engine_def split: option.splits sum.splits)

lemma default_index_id_configuration:
  "configuration s = configuration t \<Longrightarrow> default_index_id s i = default_index_id t i"
  by (simp add: configuration_def default_index_id_def split: option.splits)

lemma recursive_configuration:
  "configuration s = configuration t \<Longrightarrow> recursive s = recursive t"
  by (simp add: configuration_def)

lemma query_index_Suc:
  "query_index (Suc depth) q index_id level self =
     (case get_query_engine self (default_index_id self index_id) of
        Inl e \<Rightarrow> Some (Inl e, at_line_63 q self)
      | Inr query_engine \<Rightarrow>
          (case retrieve query_engine q of
             Inl e \<Rightarrow> Some (Inl e, at_line_75 q self)
           | Inr nodes \<Rightarrow>
               if recursive self then
                 (case fetch_loop depth nodes q level ([], []) (at_line_82 q nodes self) of
                    None \<Rightarrow> None
                  | Some (Inl e, self4) \<Rightarrow> Some (Inl e, self4)
                  | Some (Inr (nodes_for_synthesis, additional_source_nodes), self4) \<Rightarrow>
                      Some (return_response
                              (synthesize query_engine q nodes_for_synthesis
                                 (Some additional_source_nodes))
                              (query_event_id q self) self4))
               else
                 Some (return_response (synthesize query_engine q nodes None)
                         (query_event_id q self) (at_line_82 q nodes self))))"
proof -
  obtain e1 s1 where sq: "start_query q self = (e1, s1)" by (cases "start_query q self")
  obtain e2 s2 where sr: "start_retrieve s1 = (e2, s2)" by (cases "start_retrieve s1")
  have s1: "at_line_63 q self = s1" and e1: "query_event_id q self = e1"
    using sq by (simp_all add: at_line_63_def query_event_id_def)
  have s2: "at_line_75 q self = s2" using sr s1 by (simp add: at_line_75_def)
  have s3: "at_line_82 q nodes self = end_retrieve nodes e2 s2" for nodes
    using sr s1 s2 by (simp add: at_line_82_def)
  have c1: "configuration s1 = configuration self"
    using configuration_at_line_63 [of q self] s1 by simp
  have g: "get_query_engine s1 (default_index_id s1 index_id)
         = get_query_engine self (default_index_id self index_id)"
    using get_query_engine_configuration [OF c1] default_index_id_configuration [OF c1] by simp
  have r: "recursive (end_retrieve nodes e2 s2) = recursive self" for nodes
    using recursive_configuration [OF configuration_at_line_82 [of q nodes self]] s3 by simp
  show ?thesis
    by (simp add: query_index.simps(2) sq sr g r s1 s2 s3 e1 split: sum.splits option.splits prod.splits)
qed

lemma query_index_query_with:
  "query_index (Suc depth) q index_id level self =
     (case get_query_engine self (default_index_id self index_id) of
        Inl e \<Rightarrow> Some (Inl e, at_line_63 q self)
      | Inr qe \<Rightarrow> query_with qe (query_event_id q self) depth q level (at_line_63 q self))"
proof -
  obtain e1 s1 where sq: "start_query q self = (e1, s1)" by (cases "start_query q self")
  have s1: "at_line_63 q self = s1" and e1: "query_event_id q self = e1"
    using sq by (simp_all add: at_line_63_def query_event_id_def)
  have c1: "configuration s1 = configuration self"
    using configuration_at_line_63 [of q self] s1 by simp
  have g: "get_query_engine s1 (default_index_id s1 index_id)
         = get_query_engine self (default_index_id self index_id)"
    using get_query_engine_configuration [OF c1] default_index_id_configuration [OF c1] by simp
  show ?thesis
    by (simp add: query_index.simps(2) sq g s1 e1 query_with_def split: sum.splits)
qed

text \<open>
  From here on \<open>query_index\<close> unfolds by \<open>query_index_Suc\<close>, which names the object
  at each point, and the two methods are case-analysed with the rules below.
\<close>

declare query_index.simps(2) [simp del]

lemma query_index_Suc_cases:
  assumes "query_index (Suc depth) q index_id level self = Some (r, s')"
  obtains
    (no_engine) e where
      "get_query_engine self (default_index_id self index_id) = Inl e"
      "r = Inl e" "s' = at_line_63 q self"
  | (no_nodes) qe e where
      "get_query_engine self (default_index_id self index_id) = Inr qe"
      "retrieve qe q = Inl e" "r = Inl e" "s' = at_line_75 q self"
  | (plain) qe nodes where
      "get_query_engine self (default_index_id self index_id) = Inr qe"
      "retrieve qe q = Inr nodes" "\<not> recursive self"
      "return_response (synthesize qe q nodes None) (query_event_id q self)
         (at_line_82 q nodes self) = (r, s')"
  | (loop_raised) qe nodes e where
      "get_query_engine self (default_index_id self index_id) = Inr qe"
      "retrieve qe q = Inr nodes" "recursive self"
      "fetch_loop depth nodes q level ([], []) (at_line_82 q nodes self) = Some (Inl e, s')"
      "r = Inl e"
  | (loop_done) qe nodes nfs extra s4 where
      "get_query_engine self (default_index_id self index_id) = Inr qe"
      "retrieve qe q = Inr nodes" "recursive self"
      "fetch_loop depth nodes q level ([], []) (at_line_82 q nodes self) = Some (Inr (nfs, extra), s4)"
      "return_response (synthesize qe q nfs (Some extra)) (query_event_id q self) s4 = (r, s')"
  using assms unfolding query_index_Suc
  by (auto split: sum.splits option.splits prod.splits if_splits)

lemma at_line_82_unfold:
  assumes "start_query q self = (e1, s1)" and "start_retrieve s1 = (e2, s2)"
  shows "at_line_82 q nodes self = end_retrieve nodes e2 s2"
  using assms by (simp add: at_line_82_def at_line_75_def at_line_63_def)

lemma resolve_induct [case_names no_depth query_index fetch_recursive_nodes loop_end loop_step]:
  assumes "\<And>q index_id level self. P 0 q index_id level self"
    and "\<And>depth q index_id level self.
          (\<And>qe nodes.
             get_query_engine self (default_index_id self index_id) = Inr qe \<Longrightarrow>
             retrieve qe q = Inr nodes \<Longrightarrow> recursive self \<Longrightarrow>
             R depth nodes q level ([], []) (at_line_82 q nodes self)) \<Longrightarrow>
          P (Suc depth) q index_id level self"
    and "\<And>depth nws q level self.
          (\<And>t index_id. node nws = IndexNode t index_id \<Longrightarrow>
             P depth q (Some index_id) (level + 1) self) \<Longrightarrow>
          Q depth nws q level self"
    and "\<And>depth q level acc self. R depth [] q level acc self"
    and "\<And>depth nws nodes q level acc self.
          Q depth nws q level self \<Longrightarrow>
          (\<And>nws' extra self'.
             fetch_recursive_nodes depth nws q level self = Some (Inr (nws', extra), self') \<Longrightarrow>
             R depth nodes q level (fst acc @ [nws'], snd acc @ extra) self') \<Longrightarrow>
          R depth (nws # nodes) q level acc self"
  shows "P depth q index_id level self"
    and "Q depth nws q level self"
    and "R depth nodes q level acc self"
proof (induction depth q index_id level self and depth nws q level self
         and depth nodes q level acc self
       rule: query_index_fetch_recursive_nodes_fetch_loop.induct)
  case (1 q index_id level self)
  show ?case by (rule assms(1))
next
  case (2 depth q index_id level self)
  show ?case
  proof (rule assms(2))
    fix qe nodes
    assume g: "get_query_engine self (default_index_id self index_id) = Inr qe"
      and r: "retrieve qe q = Inr nodes" and rec: "recursive self"
    obtain e1 s1 where sq: "start_query q self = (e1, s1)" by (cases "start_query q self")
    obtain e2 s2 where sr: "start_retrieve s1 = (e2, s2)" by (cases "start_retrieve s1")
    have c1: "configuration s1 = configuration self"
      using configuration_start_query [of q self] sq by simp
    have g1: "get_query_engine s1 (default_index_id s1 index_id) = Inr qe"
      using g get_query_engine_configuration [OF c1] default_index_id_configuration [OF c1]
      by simp
    have s3: "at_line_82 q nodes self = end_retrieve nodes e2 s2"
      using sq sr by (rule at_line_82_unfold)
    have rec3: "recursive (end_retrieve nodes e2 s2)"
      using rec recursive_configuration [OF configuration_at_line_82 [of q nodes self]] s3
      by simp
    show "R depth nodes q level ([], []) (at_line_82 q nodes self)"
      unfolding s3 using sq [symmetric] g1 sr [symmetric] r rec3 by (rule "2.IH")
  qed
next
  case (3 depth node_with_score q level self)
  show ?case by (rule assms(3)) (rule "3.IH")
next
  case (4 depth q level acc self)
  show ?case by (rule assms(4))
next
  case (5 depth node_with_score nodes q level acc self)
  show ?case
  proof (rule assms(5))
    show "Q depth node_with_score q level self" by (rule "5.IH"(1))
  next
    fix nws' extra self'
    assume "fetch_recursive_nodes depth node_with_score q level self
              = Some (Inr (nws', extra), self')"
    then show "R depth nodes q level (fst acc @ [nws'], snd acc @ extra) self'"
      by (rule "5.IH"(2)) simp_all
  qed
qed

lemma fetch_recursive_nodes_cases:
  assumes "fetch_recursive_nodes depth nws q level self = Some (r, s')"
  obtains
    (text_node) t where "node nws = TextNode t" "r = Inr (nws, [])" "s' = self"
  | (raised) t index_id e where "node nws = IndexNode t index_id"
      "query_index depth q (Some index_id) (level + 1) self = Some (Inl e, s')" "r = Inl e"
  | (expanded) t index_id resp where "node nws = IndexNode t index_id"
      "query_index depth q (Some index_id) (level + 1) self = Some (Inr resp, s')"
      "r = Inr (\<lparr> node = TextNode (str_response resp), score = score nws \<rparr>, source_nodes resp)"
  using assms
  by (auto split: BaseNode.splits sum.splits option.splits prod.splits)

lemma fetch_loop_Cons_cases:
  assumes "fetch_loop depth (nws # nodes) q level acc self = Some (r, s')"
  obtains
    (raised) e where
      "fetch_recursive_nodes depth nws q level self = Some (Inl e, s')" "r = Inl e"
  | (continued) nws' extra self' where
      "fetch_recursive_nodes depth nws q level self = Some (Inr (nws', extra), self')"
      "fetch_loop depth nodes q level (fst acc @ [nws'], snd acc @ extra) self' = Some (r, s')"
  using assms
  by (auto simp del: fetch_recursive_nodes.simps split: sum.splits option.splits prod.splits)

lemma configuration_resolve:
  "query_index depth q index_id level self = Some (r, s') \<Longrightarrow>
     configuration s' = configuration self"
  "fetch_recursive_nodes depth nws q level self = Some (r2, s') \<Longrightarrow>
     configuration s' = configuration self"
  "fetch_loop depth nodes q level acc self = Some (r3, s') \<Longrightarrow>
     configuration s' = configuration self"
proof (induction depth q index_id level self and depth nws q level self
         and depth nodes q level acc self
       arbitrary: r s' and r2 s' and r3 s' rule: resolve_induct)
  case (no_depth q index_id level self)
  then show ?case by simp
next
  case (query_index depth q index_id level self)
  from query_index.prems show ?case
  proof (cases rule: query_index_Suc_cases)
    case (no_engine e)
    then show ?thesis by (simp add: configuration_at_line_63)
  next
    case (no_nodes qe e)
    then show ?thesis by (simp add: configuration_at_line_75)
  next
    case (plain qe nodes)
    then show ?thesis
      using configuration_return_response
        [of "synthesize qe q nodes None" "query_event_id q self" "at_line_82 q nodes self"]
      by (simp add: configuration_at_line_82)
  next
    case (loop_raised qe nodes e)
    then show ?thesis using query_index.IH by (simp add: configuration_at_line_82)
  next
    case (loop_done qe nodes nfs extra s4)
    then have "configuration s4 = configuration self"
      using query_index.IH by (simp add: configuration_at_line_82)
    then show ?thesis
      using loop_done(5) configuration_return_response
        [of "synthesize qe q nfs (Some extra)" "query_event_id q self" s4]
      by simp
  qed
next
  case (fetch_recursive_nodes depth nws q level self)
  from fetch_recursive_nodes.prems show ?case
    by (cases rule: fetch_recursive_nodes_cases) (simp_all add: fetch_recursive_nodes.IH)
next
  case (loop_end depth q level acc self)
  then show ?case by simp
next
  case (loop_step depth nws nodes q level acc self)
  from loop_step.prems show ?case
  proof (cases rule: fetch_loop_Cons_cases)
    case (raised e)
    then show ?thesis by (simp add: loop_step.IH(1))
  next
    case (continued nws' extra self')
    then show ?thesis using loop_step.IH(1) loop_step.IH(2) by metis
  qed
qed

section \<open>Evaluating the examples\<close>

lemmas engine_defs =
  init_def default_index_id_def get_query_engine_def
  start_query_def start_retrieve_def end_retrieve_def end_query_def return_response_def
  on_event_start_def on_event_end_def str_response_def
  query_event_id_def at_line_63_def at_line_75_def at_line_82_def

lemmas example_defs =
  index_lookup_def fixed_engine_def echo_engine_def q0_def hello_def see_B_def
  index_A_def index_B_def scenario_graph_def scenario_def answer_B_def

lemma query_index_B_scenario:
  "query_index (Suc 0) q0 (Some ''B'') (0 + 1) scenario =
     Some (Inr answer_B, end_query answer_B (query_event_id q0 scenario) (at_line_82 q0 [hello] scenario))"
  by (simp add: query_index_Suc engine_defs example_defs)

section \<open>The expansion rule\<close>

text \<open>
  C1. For a fragment whose node is an index node with identifier \<open>index_id\<close>,
  \<open>fetch_recursive_nodes\<close> resolves the query against \<open>index_id\<close> at \<open>level + 1\<close>;
  when that returns a response, the result is a text node with the response's text
  (\<open>str_response\<close>) and the score of the original fragment, paired with the response's
  source nodes; when it raises or does not return, so does the expansion. For any other
  fragment the result is the fragment itself, paired with the empty list, and the object
  is as it was.
\<close>

theorem fetch_recursive_nodes_expansion:
  "(node nws = IndexNode t index_id \<and>
      query_index depth q (Some index_id) (level + 1) self = Some (Inr resp, self') \<longrightarrow>
      fetch_recursive_nodes depth nws q level self =
        Some (Inr (\<lparr> node = TextNode (str_response resp), score = score nws \<rparr>,
                   source_nodes resp),
              self'))
   \<and> (node nws = IndexNode t index_id \<and>
      query_index depth q (Some index_id) (level + 1) self = Some (Inl e, self') \<longrightarrow>
      fetch_recursive_nodes depth nws q level self = Some (Inl e, self'))
   \<and> (node nws = IndexNode t index_id \<and>
      query_index depth q (Some index_id) (level + 1) self = None \<longrightarrow>
      fetch_recursive_nodes depth nws q level self = None)
   \<and> (\<not> is_IndexNode (node nws) \<longrightarrow>
      fetch_recursive_nodes depth nws q level self = Some (Inr (nws, []), self))"
  by (cases "node nws") simp_all

theorem fetch_recursive_nodes_expansion_witness:
  "node see_B = IndexNode [] ''B''
   \<and> query_index (Suc 0) q0 (Some ''B'') (0 + 1) scenario =
       Some (Inr answer_B, end_query answer_B (query_event_id q0 scenario) (at_line_82 q0 [hello] scenario))
   \<and> fetch_recursive_nodes (Suc 0) see_B q0 0 scenario =
       Some (Inr (\<lparr> node = TextNode ''hello world'', score = 0.9 \<rparr>, [hello]),
             end_query answer_B (query_event_id q0 scenario) (at_line_82 q0 [hello] scenario))
   \<and> query_index 0 q0 (Some ''B'') (0 + 1) scenario = None
   \<and> fetch_recursive_nodes 0 see_B q0 0 scenario = None
   \<and> \<not> is_IndexNode (node hello)
   \<and> fetch_recursive_nodes (Suc 0) hello q0 0 scenario = Some (Inr (hello, []), scenario)"
proof -
  have n: "node see_B = IndexNode [] ''B''" by (simp add: see_B_def)
  note r = query_index_B_scenario
  have z: "query_index 0 q0 (Some ''B'') (0 + 1) scenario = None" by simp
  have h: "\<not> is_IndexNode (node hello)" by (simp add: hello_def)
  have a: "str_response answer_B = ''hello world''" "source_nodes answer_B = [hello]"
    "score see_B = 0.9"
    by (simp_all add: str_response_def answer_B_def see_B_def)
  have 1: "fetch_recursive_nodes (Suc 0) see_B q0 0 scenario =
       Some (Inr (\<lparr> node = TextNode (str_response answer_B), score = score see_B \<rparr>,
                  source_nodes answer_B),
             end_query answer_B (query_event_id q0 scenario) (at_line_82 q0 [hello] scenario))"
    using fetch_recursive_nodes_expansion
      [where nws = see_B and t = "[]" and index_id = "''B''" and depth = "Suc 0" and q = q0
         and level = 0 and self = scenario and resp = answer_B] n r
    by blast
  have 2: "fetch_recursive_nodes 0 see_B q0 0 scenario = None"
    using fetch_recursive_nodes_expansion
      [where nws = see_B and t = "[]" and index_id = "''B''" and depth = 0 and q = q0
         and level = 0 and self = scenario] n z
    by blast
  have 3: "fetch_recursive_nodes (Suc 0) hello q0 0 scenario = Some (Inr (hello, []), scenario)"
    using fetch_recursive_nodes_expansion
      [where nws = hello and depth = "Suc 0" and q = q0 and level = 0 and self = scenario] h
    by blast
  from n r 1 [unfolded a] z 2 h 3 show ?thesis by blast
qed

section \<open>The loop over the retrieved nodes\<close>

lemma fst_return_response: "fst (return_response synthesized event_id self) = synthesized"
  by (simp add: return_response_def split: sum.splits)

lemma fetch_loop_expansions:
  "fetch_loop depth nodes q level acc self =
     (case expansions depth nodes q level self of
        None \<Rightarrow> None
      | Some (Inl e, self') \<Rightarrow> Some (Inl e, self')
      | Some (Inr expanded, self') \<Rightarrow>
          Some (Inr (fst acc @ fragments_for_synthesis expanded,
                     snd acc @ additional_sources expanded), self'))"
proof (induction nodes arbitrary: acc self)
  case Nil
  show ?case by (simp add: fragments_for_synthesis_def additional_sources_def)
next
  case (Cons nws nodes)
  show ?case
  proof (cases "fetch_recursive_nodes depth nws q level self")
    case None
    then show ?thesis by (simp del: fetch_recursive_nodes.simps)
  next
    case (Some outcome)
    obtain r self' where outcome: "outcome = (r, self')" by (cases outcome)
    show ?thesis
    proof (cases r)
      case (Inl e)
      with Some outcome show ?thesis by (simp del: fetch_recursive_nodes.simps)
    next
      case (Inr expanded)
      obtain nws' extra where expanded: "expanded = (nws', extra)" by (cases expanded)
      from Some outcome Inr expanded show ?thesis
        by (simp del: fetch_recursive_nodes.simps
              add: Cons.IH fragments_for_synthesis_def additional_sources_def
              split: option.splits sum.splits prod.splits)
    qed
  qed
qed

lemma expansions_plain:
  "\<forall>n \<in> set nodes. \<not> is_IndexNode (node n) \<Longrightarrow>
     expansions depth nodes q level self = Some (Inr (map (\<lambda>n. (n, [])) nodes), self)"
proof (induction nodes)
  case Nil
  show ?case by simp
next
  case (Cons nws nodes)
  from Cons.prems have "\<not> is_IndexNode (node nws)" by simp
  then have "fetch_recursive_nodes depth nws q level self = Some (Inr (nws, []), self)"
    by (cases "node nws") simp_all
  with Cons show ?case by (simp del: fetch_recursive_nodes.simps)
qed

text \<open>
  C2. With recursion enabled, \<open>query_index\<close> applies the expansion rule to the retrieved
  nodes in their order (\<open>expansions\<close>); when every application returns, it calls
  \<open>synthesize\<close> with the expanded fragments in that order and with the concatenation, in
  that order, of their lists of extra sources, and what \<open>synthesize\<close> gives (a response or
  an exception) is what \<open>query_index\<close> gives.
\<close>

theorem query_index_recursive:
  "recursive self \<and>
   get_query_engine self (default_index_id self index_id) = Inr qe \<and>
   retrieve qe q = Inr nodes \<and>
   map_option fst (expansions depth nodes q level (at_line_82 q nodes self)) = Some (Inr expanded)
   \<longrightarrow>
   map_option fst (query_index (Suc depth) q index_id level self) =
     Some (synthesize qe q (fragments_for_synthesis expanded)
             (Some (additional_sources expanded)))"
proof (intro impI, elim conjE)
  assume rec: "recursive self"
    and qe: "get_query_engine self (default_index_id self index_id) = Inr qe"
    and nodes: "retrieve qe q = Inr nodes"
    and ex: "map_option fst (expansions depth nodes q level (at_line_82 q nodes self))
               = Some (Inr expanded)"
  from ex obtain self4 where
    "expansions depth nodes q level (at_line_82 q nodes self) = Some (Inr expanded, self4)"
    by auto
  then have "fetch_loop depth nodes q level ([], []) (at_line_82 q nodes self) =
      Some (Inr (fragments_for_synthesis expanded, additional_sources expanded), self4)"
    by (simp add: fetch_loop_expansions)
  with rec qe nodes show
    "map_option fst (query_index (Suc depth) q index_id level self) =
       Some (synthesize qe q (fragments_for_synthesis expanded)
               (Some (additional_sources expanded)))"
    by (simp add: query_index_Suc fst_return_response)
qed

theorem query_index_recursive_witness:
  "recursive scenario
   \<and> get_query_engine scenario (default_index_id scenario None) = Inr (echo_engine [see_B])
   \<and> retrieve (echo_engine [see_B]) q0 = Inr [see_B]
   \<and> map_option fst (expansions (Suc 0) [see_B] q0 0 (at_line_82 q0 [see_B] scenario)) =
       Some (Inr [(\<lparr> node = TextNode ''hello world'', score = 0.9 \<rparr>, [hello])])
   \<and> map_option fst (query_index (Suc (Suc 0)) q0 None 0 scenario) =
       Some (Inr \<lparr> response = ''hello world'',
                    source_nodes = [\<lparr> node = TextNode ''hello world'', score = 0.9 \<rparr>, hello] \<rparr>)"
proof -
  have 1: "recursive scenario" by (simp add: scenario_def init_def)
  have 2: "get_query_engine scenario (default_index_id scenario None) = Inr (echo_engine [see_B])"
    by (simp add: engine_defs scenario_def scenario_graph_def index_A_def index_lookup_def)
  have 3: "retrieve (echo_engine [see_B]) q0 = Inr [see_B]" by (simp add: echo_engine_def)
  have 4: "map_option fst (expansions (Suc 0) [see_B] q0 0 (at_line_82 q0 [see_B] scenario)) =
       Some (Inr [(\<lparr> node = TextNode ''hello world'', score = 0.9 \<rparr>, [hello])])"
    by (simp add: query_index_Suc engine_defs example_defs)
  have 5: "synthesize (echo_engine [see_B]) q0
             (fragments_for_synthesis [(\<lparr> node = TextNode ''hello world'', score = 0.9 \<rparr>, [hello])])
             (Some (additional_sources [(\<lparr> node = TextNode ''hello world'', score = 0.9 \<rparr>, [hello])]))
           = Inr \<lparr> response = ''hello world'',
                    source_nodes = [\<lparr> node = TextNode ''hello world'', score = 0.9 \<rparr>, hello] \<rparr>"
    by (simp add: echo_engine_def fragments_for_synthesis_def additional_sources_def)
  have 6: "map_option fst (query_index (Suc (Suc 0)) q0 None 0 scenario) =
       Some (Inr \<lparr> response = ''hello world'',
                    source_nodes = [\<lparr> node = TextNode ''hello world'', score = 0.9 \<rparr>, hello] \<rparr>)"
    using query_index_recursive
      [where self = scenario and index_id = None and qe = "echo_engine [see_B]" and q = q0
         and nodes = "[see_B]" and depth = "Suc 0" and level = 0
         and expanded = "[(\<lparr> node = TextNode ''hello world'', score = 0.9 \<rparr>, [hello])]"]
      1 2 3 4
    unfolding 5 by blast
  from 1 2 3 4 6 show ?thesis by blast
qed

text \<open>
  C7. With recursion enabled, when no retrieved node is an index node, the response is
  what \<open>synthesize\<close> gives for the query, the retrieved nodes as they are and the empty
  list of additional sources. This holds for every graph, so for one with a single index.
\<close>

theorem query_index_no_placeholder:
  "recursive self \<and>
   get_query_engine self (default_index_id self index_id) = Inr qe \<and>
   retrieve qe q = Inr nodes \<and>
   (\<forall>n \<in> set nodes. \<not> is_IndexNode (node n))
   \<longrightarrow>
   map_option fst (query_index (Suc depth) q index_id level self) =
     Some (synthesize qe q nodes (Some []))"
proof (intro impI, elim conjE)
  assume rec: "recursive self"
    and qe: "get_query_engine self (default_index_id self index_id) = Inr qe"
    and nodes: "retrieve qe q = Inr nodes"
    and plain: "\<forall>n \<in> set nodes. \<not> is_IndexNode (node n)"
  have "fetch_loop depth nodes q level ([], []) (at_line_82 q nodes self) =
          Some (Inr (nodes, []), at_line_82 q nodes self)"
    by (simp add: fetch_loop_expansions expansions_plain [OF plain]
          fragments_for_synthesis_def additional_sources_def comp_def)
  with rec qe nodes show
    "map_option fst (query_index (Suc depth) q index_id level self) =
       Some (synthesize qe q nodes (Some []))"
    by (simp add: query_index_Suc fst_return_response)
qed

theorem query_index_no_placeholder_witness:
  "recursive single
   \<and> get_query_engine single (default_index_id single None) = Inr (fixed_engine [hello] ''hello world'')
   \<and> retrieve (fixed_engine [hello] ''hello world'') q0 = Inr [hello]
   \<and> \<not> is_IndexNode (node hello)
   \<and> map_option fst (query_index (Suc 0) q0 None 0 single) =
       Some (synthesize (fixed_engine [hello] ''hello world'') q0 [hello] (Some []))
   \<and> synthesize (fixed_engine [hello] ''hello world'') q0 [hello] (Some []) = Inr answer_B"
proof -
  have 1: "recursive single" by (simp add: single_def init_def)
  have 2: "get_query_engine single (default_index_id single None)
             = Inr (fixed_engine [hello] ''hello world'')"
    by (simp add: engine_defs single_def single_graph_def index_B_def index_lookup_def)
  have 3: "retrieve (fixed_engine [hello] ''hello world'') q0 = Inr [hello]"
    by (simp add: fixed_engine_def)
  have h: "\<not> is_IndexNode (node hello)" by (simp add: hello_def)
  then have 4: "\<forall>n \<in> set [hello]. \<not> is_IndexNode (node n)" by simp
  have 5: "synthesize (fixed_engine [hello] ''hello world'') q0 [hello] (Some []) = Inr answer_B"
    by (simp add: fixed_engine_def answer_B_def)
  have 6: "map_option fst (query_index (Suc 0) q0 None 0 single) =
       Some (synthesize (fixed_engine [hello] ''hello world'') q0 [hello] (Some []))"
    using query_index_no_placeholder
      [where self = single and index_id = None and qe = "fixed_engine [hello] ''hello world''"
         and q = q0 and nodes = "[hello]" and depth = 0 and level = 0]
      1 2 3 4
    by blast
  from 1 2 3 h 6 5 show ?thesis by blast
qed

section \<open>The choice of the index and of the query engine\<close>

text \<open>
  C10. The empty identifier is treated as no identifier: \<open>query_index\<close> with the empty
  string does what it does with \<open>None\<close>, and what it does is to choose the query engine
  of the root identifier and to run lines 74 to 103 with it. The empty string is never
  looked up, neither in the registry nor in the graph.
\<close>

theorem query_index_empty_index_id:
  "default_index_id self (Some []) = root_id (graph self)
   \<and> query_index depth q (Some []) level self = query_index depth q None level self
   \<and> query_index (Suc depth) q (Some []) level self =
       (case get_query_engine self (root_id (graph self)) of
          Inl e \<Rightarrow> Some (Inl e, at_line_63 q self)
        | Inr qe \<Rightarrow> query_with qe (query_event_id q self) depth q level (at_line_63 q self))"
proof -
  have 1: "default_index_id self (Some []) = root_id (graph self)"
    by (simp add: default_index_id_def)
  have 2: "query_index depth q (Some []) level self = query_index depth q None level self"
    by (cases depth) (simp_all add: query_index_Suc default_index_id_def)
  have 3: "query_index (Suc depth) q (Some []) level self =
       (case get_query_engine self (root_id (graph self)) of
          Inl e \<Rightarrow> Some (Inl e, at_line_63 q self)
        | Inr qe \<Rightarrow> query_with qe (query_event_id q self) depth q level (at_line_63 q self))"
    by (simp add: query_index_query_with 1)
  from 1 2 3 show ?thesis by blast
qed

theorem query_index_empty_index_id_witness:
  "get_index (graph empty_key) [] = Inr index_E
   \<and> custom_query_engines empty_key [] = Some (fixed_engine [hello] ''custom of the empty key'')
   \<and> root_id (graph empty_key) = ''B''
   \<and> get_query_engine empty_key ''B'' = Inr (fixed_engine [hello] ''hello world'')
   \<and> map_option fst (query_index (Suc 0) q0 (Some []) 0 empty_key) = Some (Inr answer_B)
   \<and> map_option fst (query_index (Suc 0) q0 None 0 empty_key) = Some (Inr answer_B)"
proof -
  note ek = empty_key_def empty_key_graph_def init_def index_lookup_def
  have 1: "get_index (graph empty_key) [] = Inr index_E" by (simp add: ek)
  have 2: "custom_query_engines empty_key []
             = Some (fixed_engine [hello] ''custom of the empty key'')"
    by (simp add: ek)
  have 3: "root_id (graph empty_key) = ''B''" by (simp add: ek)
  have 4: "get_query_engine empty_key ''B'' = Inr (fixed_engine [hello] ''hello world'')"
    by (simp add: ek get_query_engine_def index_B_def)
  note T = query_index_empty_index_id [where self = empty_key and depth = 0 and q = q0 and level = 0]
  from T have E: "query_index (Suc 0) q0 (Some []) 0 empty_key =
       (case get_query_engine empty_key (root_id (graph empty_key)) of
          Inl e \<Rightarrow> Some (Inl e, at_line_63 q0 empty_key)
        | Inr qe \<Rightarrow> query_with qe (query_event_id q0 empty_key) 0 q0 0 (at_line_63 q0 empty_key))"
    by blast
  have 5: "map_option fst (query_index (Suc 0) q0 (Some []) 0 empty_key) = Some (Inr answer_B)"
    unfolding E 3 4 by (simp add: query_with_def engine_defs example_defs ek)
  from query_index_empty_index_id [where self = empty_key and depth = "Suc 0" and q = q0 and level = 0]
  have N: "query_index (Suc 0) q0 (Some []) 0 empty_key = query_index (Suc 0) q0 None 0 empty_key"
    by blast
  have 6: "map_option fst (query_index (Suc 0) q0 None 0 empty_key) = Some (Inr answer_B)"
    using 5 unfolding N .
  from 1 2 3 4 5 6 show ?thesis by blast
qed

text \<open>
  C8. \<open>query\<close> and \<open>aquery\<close> give the same outcome for every query: both are
  \<open>query_index\<close> with no identifier at level 0, which is \<open>query_index\<close> for the root
  identifier at level 0.
\<close>

theorem aquery_query:
  "aquery depth q self = query depth q self
   \<and> query depth q self = query_index depth q None 0 self
   \<and> query depth q self = query_index depth q (Some (root_id (graph self))) 0 self"
  by (cases depth) (simp_all add: aquery_def query_def query_index_Suc default_index_id_def)

text \<open>
  C3. In every activation, \<open>query_index\<close> runs lines 74 to 103 with the query engine
  chosen for the identifier it resolves: the entry of the custom registry when there is
  one, whatever the index is and whatever the configured top-k is; otherwise what the
  index of the graph builds, with the configured top-k when the index is a vector store
  index and with no argument when it is not. When the index fails to build one, the
  method raises what the index raised.
\<close>

theorem query_index_selection:
  "(custom_query_engines self (default_index_id self index_id) = Some qe \<longrightarrow>
      query_index (Suc depth) q index_id level self =
        query_with qe (query_event_id q self) depth q level (at_line_63 q self)
      \<and> query_index (Suc depth) q index_id level (self\<lparr>similarity_top_k := k\<rparr>) =
        query_with qe (query_event_id q (self\<lparr>similarity_top_k := k\<rparr>)) depth q level
          (at_line_63 q (self\<lparr>similarity_top_k := k\<rparr>)))
   \<and> (custom_query_engines self (default_index_id self index_id) = None \<and>
        get_index (graph self) (default_index_id self index_id) = Inr idx \<and>
        is_VectorStoreIndex idx \<longrightarrow>
      query_index (Suc depth) q index_id level self =
        (case as_query_engine idx (Some (similarity_top_k self)) of
           Inl e \<Rightarrow> Some (Inl e, at_line_63 q self)
         | Inr built \<Rightarrow>
             query_with built (query_event_id q self) depth q level (at_line_63 q self)))
   \<and> (custom_query_engines self (default_index_id self index_id) = None \<and>
        get_index (graph self) (default_index_id self index_id) = Inr idx \<and>
        \<not> is_VectorStoreIndex idx \<longrightarrow>
      query_index (Suc depth) q index_id level self =
        (case as_query_engine idx None of
           Inl e \<Rightarrow> Some (Inl e, at_line_63 q self)
         | Inr built \<Rightarrow>
             query_with built (query_event_id q self) depth q level (at_line_63 q self)))"
proof -
  have d: "default_index_id (self\<lparr>similarity_top_k := k\<rparr>) index_id
         = default_index_id self index_id"
    by (simp add: default_index_id_def split: option.splits)
  show ?thesis
    by (simp add: query_index_query_with get_query_engine_def d)
qed

theorem query_index_selection_witness:
  "custom_query_engines selection (default_index_id selection (Some ''A''))
     = Some (fixed_engine [hello] ''custom A'')
   \<and> get_index (graph selection) ''A'' = Inr index_A
   \<and> is_VectorStoreIndex index_A
   \<and> map_option fst (query_index (Suc 0) q0 (Some ''A'') 0 selection) =
       Some (Inr \<lparr> response = ''custom A'', source_nodes = [hello] \<rparr>)
   \<and> map_option fst (query_index (Suc 0) q0 (Some ''A'') 0 (selection\<lparr>similarity_top_k := 7\<rparr>)) =
       Some (Inr \<lparr> response = ''custom A'', source_nodes = [hello] \<rparr>)
   \<and> custom_query_engines selection (default_index_id selection (Some ''V'')) = None
   \<and> get_index (graph selection) (default_index_id selection (Some ''V'')) = Inr index_A
   \<and> similarity_top_k selection = 2
   \<and> map_option fst (query_index (Suc 0) q0 (Some ''V'') 0 selection) =
       Some (Inr \<lparr> response = [], source_nodes = [see_B, see_B] \<rparr>)
   \<and> custom_query_engines selection (default_index_id selection (Some ''P'')) = None
   \<and> get_index (graph selection) (default_index_id selection (Some ''P'')) = Inr index_P
   \<and> \<not> is_VectorStoreIndex index_P
   \<and> map_option fst (query_index (Suc 0) q0 (Some ''P'') 0 selection) =
       Some (Inr \<lparr> response = ''no top-k'', source_nodes = [hello] \<rparr>)"
proof -
  note sel = selection_def selection_graph_def init_def default_index_id_def index_lookup_def
  have cA: "custom_query_engines selection (default_index_id selection (Some ''A''))
              = Some (fixed_engine [hello] ''custom A'')"
    by (simp add: sel)
  have gA: "get_index (graph selection) ''A'' = Inr index_A" by (simp add: sel)
  have vA: "is_VectorStoreIndex index_A" by (simp add: index_A_def)
  have cV: "custom_query_engines selection (default_index_id selection (Some ''V'')) = None"
    by (simp add: sel)
  have gV: "get_index (graph selection) (default_index_id selection (Some ''V'')) = Inr index_A"
    by (simp add: sel)
  have k: "similarity_top_k selection = 2" by (simp add: sel)
  have cP: "custom_query_engines selection (default_index_id selection (Some ''P'')) = None"
    by (simp add: sel)
  have gP: "get_index (graph selection) (default_index_id selection (Some ''P'')) = Inr index_P"
    by (simp add: sel)
  have vP: "\<not> is_VectorStoreIndex index_P" by (simp add: index_P_def)
  note T = query_index_selection [where self = selection and depth = 0 and q = q0 and level = 0]
  from T [where index_id = "Some ''A''" and qe = "fixed_engine [hello] ''custom A''" and k = 7] cA
  have A: "query_index (Suc 0) q0 (Some ''A'') 0 selection =
        query_with (fixed_engine [hello] ''custom A'') (query_event_id q0 selection) 0 q0 0
          (at_line_63 q0 selection)"
    and A7: "query_index (Suc 0) q0 (Some ''A'') 0 (selection\<lparr>similarity_top_k := 7\<rparr>) =
        query_with (fixed_engine [hello] ''custom A'')
          (query_event_id q0 (selection\<lparr>similarity_top_k := 7\<rparr>)) 0 q0 0
          (at_line_63 q0 (selection\<lparr>similarity_top_k := 7\<rparr>))"
    by blast+
  from T [where index_id = "Some ''V''" and idx = index_A] cV gV vA
  have V: "query_index (Suc 0) q0 (Some ''V'') 0 selection =
        (case as_query_engine index_A (Some (similarity_top_k selection)) of
           Inl e \<Rightarrow> Some (Inl e, at_line_63 q0 selection)
         | Inr built \<Rightarrow>
             query_with built (query_event_id q0 selection) 0 q0 0 (at_line_63 q0 selection))"
    by blast
  from T [where index_id = "Some ''P''" and idx = index_P] cP gP vP
  have P: "query_index (Suc 0) q0 (Some ''P'') 0 selection =
        (case as_query_engine index_P None of
           Inl e \<Rightarrow> Some (Inl e, at_line_63 q0 selection)
         | Inr built \<Rightarrow>
             query_with built (query_event_id q0 selection) 0 q0 0 (at_line_63 q0 selection))"
    by blast
  have rA: "map_option fst (query_index (Suc 0) q0 (Some ''A'') 0 selection) =
       Some (Inr \<lparr> response = ''custom A'', source_nodes = [hello] \<rparr>)"
    unfolding A by (simp add: query_with_def engine_defs example_defs sel)
  have rA7: "map_option fst (query_index (Suc 0) q0 (Some ''A'') 0 (selection\<lparr>similarity_top_k := 7\<rparr>)) =
       Some (Inr \<lparr> response = ''custom A'', source_nodes = [hello] \<rparr>)"
    unfolding A7 by (simp add: query_with_def engine_defs example_defs sel)
  have rV: "map_option fst (query_index (Suc 0) q0 (Some ''V'') 0 selection) =
       Some (Inr \<lparr> response = [], source_nodes = [see_B, see_B] \<rparr>)"
    unfolding V by (simp add: query_with_def engine_defs example_defs sel numeral_2_eq_2)
  have rP: "map_option fst (query_index (Suc 0) q0 (Some ''P'') 0 selection) =
       Some (Inr \<lparr> response = ''no top-k'', source_nodes = [hello] \<rparr>)"
    unfolding P by (simp add: query_with_def engine_defs example_defs sel index_P_def)
  from cA gA vA rA rA7 cV gV k rV cP gP vP rP show ?thesis by blast
qed

section \<open>Without recursion\<close>

text \<open>
  C4. When the object was made with \<open>recursive = False\<close>, \<open>query_index\<close> passes the
  retrieved nodes as they are to \<open>synthesize\<close>, with no third argument, whatever the nodes
  are, and what \<open>synthesize\<close> gives is the outcome. No node is expanded: one activation
  is enough (\<open>depth\<close> may be 0), and the object is left as it was at line 82 but for the
  report of the response.
\<close>

theorem query_index_not_recursive:
  "\<not> recursive self \<and>
   get_query_engine self (default_index_id self index_id) = Inr qe \<and>
   retrieve qe q = Inr nodes
   \<longrightarrow>
   query_index (Suc depth) q index_id level self =
     Some (return_response (synthesize qe q nodes None) (query_event_id q self)
             (at_line_82 q nodes self))
   \<and> map_option fst (query_index (Suc depth) q index_id level self) =
       Some (synthesize qe q nodes None)"
  by (simp add: query_index_Suc fst_return_response)

theorem query_index_not_recursive_witness:
  "recursive (init scenario_graph None False 1) = False
   \<and> scenario_flat = init scenario_graph None False 1
   \<and> \<not> recursive scenario_flat
   \<and> get_query_engine scenario_flat (default_index_id scenario_flat None) = Inr (echo_engine [see_B])
   \<and> retrieve (echo_engine [see_B]) q0 = Inr [see_B]
   \<and> is_IndexNode (node see_B)
   \<and> query_index (Suc 0) q0 None 0 scenario_flat =
       Some (return_response (synthesize (echo_engine [see_B]) q0 [see_B] None)
               (query_event_id q0 scenario_flat) (at_line_82 q0 [see_B] scenario_flat))
   \<and> map_option fst (query_index (Suc 0) q0 None 0 scenario_flat) =
       Some (synthesize (echo_engine [see_B]) q0 [see_B] None)
   \<and> synthesize (echo_engine [see_B]) q0 [see_B] None
       = Inr \<lparr> response = [], source_nodes = [see_B] \<rparr>"
proof -
  have 0: "recursive (init scenario_graph None False 1) = False" by (simp add: init_def)
  have d: "scenario_flat = init scenario_graph None False 1" by (simp add: scenario_flat_def)
  have 1: "\<not> recursive scenario_flat" by (simp add: scenario_flat_def init_def)
  have 2: "get_query_engine scenario_flat (default_index_id scenario_flat None)
             = Inr (echo_engine [see_B])"
    by (simp add: engine_defs scenario_flat_def scenario_graph_def index_A_def index_lookup_def)
  have 3: "retrieve (echo_engine [see_B]) q0 = Inr [see_B]" by (simp add: echo_engine_def)
  have 4: "is_IndexNode (node see_B)" by (simp add: see_B_def)
  have 5: "synthesize (echo_engine [see_B]) q0 [see_B] None
             = Inr \<lparr> response = [], source_nodes = [see_B] \<rparr>"
    by (simp add: echo_engine_def see_B_def)
  have 6: "query_index (Suc 0) q0 None 0 scenario_flat =
       Some (return_response (synthesize (echo_engine [see_B]) q0 [see_B] None)
               (query_event_id q0 scenario_flat) (at_line_82 q0 [see_B] scenario_flat))
   \<and> map_option fst (query_index (Suc 0) q0 None 0 scenario_flat) =
       Some (synthesize (echo_engine [see_B]) q0 [see_B] None)"
    using query_index_not_recursive
      [where self = scenario_flat and index_id = None and qe = "echo_engine [see_B]"
         and q = q0 and nodes = "[see_B]" and depth = 0 and level = 0]
      1 2 3
    by blast
  from 0 d 1 2 3 4 6 5 show ?thesis by blast
qed

section \<open>What a query leaves behind\<close>

text \<open>
  The response of a query depends on the configuration and on the arguments only: two
  objects that differ in what their callback managers have seen give the same response.
\<close>

lemma result_after_loop:
  "map_option fst L = map_option fst L' \<Longrightarrow>
   map_option fst
     (case L of
        None \<Rightarrow> None
      | Some (Inl e, s) \<Rightarrow> Some (Inl e, s)
      | Some (Inr (a, b), s) \<Rightarrow> Some (return_response (f a b) i s)) =
   map_option fst
     (case L' of
        None \<Rightarrow> None
      | Some (Inl e, s) \<Rightarrow> Some (Inl e, s)
      | Some (Inr (a, b), s) \<Rightarrow> Some (return_response (f a b) i' s))"
  by (cases L; cases L') (auto simp: return_response_def split: sum.splits prod.splits)

lemma result_after_query:
  "map_option fst L = map_option fst L' \<Longrightarrow>
   map_option fst
     (case L of
        None \<Rightarrow> None
      | Some (Inl e, s) \<Rightarrow> Some (Inl e, s)
      | Some (Inr resp, s) \<Rightarrow> Some (Inr (f resp), s)) =
   map_option fst
     (case L' of
        None \<Rightarrow> None
      | Some (Inl e, s) \<Rightarrow> Some (Inl e, s)
      | Some (Inr resp, s) \<Rightarrow> Some (Inr (f resp), s))"
  by (cases L; cases L') (auto split: sum.splits prod.splits)

lemma result_configuration:
  "configuration self = configuration other \<Longrightarrow>
     map_option fst (query_index depth q index_id level self) =
     map_option fst (query_index depth q index_id level other)"
  "configuration self = configuration other \<Longrightarrow>
     map_option fst (fetch_recursive_nodes depth nws q level self) =
     map_option fst (fetch_recursive_nodes depth nws q level other)"
  "configuration self = configuration other \<Longrightarrow>
     map_option fst (fetch_loop depth nodes q level acc self) =
     map_option fst (fetch_loop depth nodes q level acc other)"
proof (induction depth q index_id level self and depth nws q level self
         and depth nodes q level acc self
       arbitrary: other and other and other rule: resolve_induct)
  case (no_depth q index_id level self)
  show ?case by simp
next
  case (query_index depth q index_id level self)
  note c = query_index.prems
  have g: "get_query_engine other (default_index_id other index_id)
         = get_query_engine self (default_index_id self index_id)"
    using get_query_engine_configuration [OF c] default_index_id_configuration [OF c] by simp
  have r: "recursive other = recursive self"
    using recursive_configuration [OF c] by simp
  show ?case
  proof (cases "get_query_engine self (default_index_id self index_id)")
    case (Inl e)
    then show ?thesis by (simp add: query_index_Suc g)
  next
    case (Inr qe)
    show ?thesis
    proof (cases "retrieve qe q")
      case (Inl e)
      with Inr show ?thesis by (simp add: query_index_Suc g)
    next
      case nodes: (Inr nodes)
      show ?thesis
      proof (cases "recursive self")
        case False
        with Inr nodes show ?thesis by (simp add: query_index_Suc g r fst_return_response)
      next
        case True
        have "configuration (at_line_82 q nodes self) = configuration (at_line_82 q nodes other)"
          using c by (simp add: configuration_at_line_82)
        with Inr nodes True
        have "map_option fst (fetch_loop depth nodes q level ([], []) (at_line_82 q nodes self)) =
              map_option fst (fetch_loop depth nodes q level ([], []) (at_line_82 q nodes other))"
          by (rule query_index.IH)
        from result_after_loop [OF this] Inr nodes True show ?thesis
          by (simp add: query_index_Suc g r)
      qed
    qed
  qed
next
  case (fetch_recursive_nodes depth nws q level self)
  show ?case
  proof (cases "node nws")
    case (TextNode t)
    then show ?thesis by simp
  next
    case (IndexNode t index_id)
    from IndexNode fetch_recursive_nodes.prems
    have "map_option fst (query_index depth q (Some index_id) (level + 1) self) =
          map_option fst (query_index depth q (Some index_id) (level + 1) other)"
      by (rule fetch_recursive_nodes.IH)
    from result_after_query [OF this] IndexNode show ?thesis by simp
  qed
next
  case (loop_end depth q level acc self)
  show ?case by simp
next
  case (loop_step depth nws nodes q level acc self)
  note c = loop_step.prems
  have head: "map_option fst (fetch_recursive_nodes depth nws q level self) =
              map_option fst (fetch_recursive_nodes depth nws q level other)"
    using c by (rule loop_step.IH(1))
  show ?case
  proof (cases "fetch_recursive_nodes depth nws q level self")
    case None
    with head have "fetch_recursive_nodes depth nws q level other = None" by simp
    with None show ?thesis by (simp del: fetch_recursive_nodes.simps)
  next
    case (Some outcome)
    obtain r self' where outcome: "outcome = (r, self')" by (cases outcome)
    from Some outcome head obtain other' where
      other': "fetch_recursive_nodes depth nws q level other = Some (r, other')"
      by (cases "fetch_recursive_nodes depth nws q level other") auto
    show ?thesis
    proof (cases r)
      case (Inl e)
      with Some outcome other' show ?thesis by (simp del: fetch_recursive_nodes.simps)
    next
      case (Inr expanded)
      obtain nws' extra where expanded: "expanded = (nws', extra)" by (cases expanded)
      have s: "fetch_recursive_nodes depth nws q level self = Some (Inr (nws', extra), self')"
        using Some outcome Inr expanded by simp
      have "configuration self' = configuration other'"
        using configuration_resolve(2) [OF s] configuration_resolve(2) [OF other'] c by simp
      with s have "map_option fst (fetch_loop depth nodes q level
                      (fst acc @ [nws'], snd acc @ extra) self') =
                   map_option fst (fetch_loop depth nodes q level
                      (fst acc @ [nws'], snd acc @ extra) other')"
        by (rule loop_step.IH(2))
      with s other' Inr expanded show ?thesis by (simp del: fetch_recursive_nodes.simps)
    qed
  qed
qed

section \<open>The level and the depth\<close>

text \<open>The level is passed on and never looked at.\<close>

lemma level_irrelevant:
  "query_index depth q index_id level self = query_index depth q index_id level' self"
  "fetch_recursive_nodes depth nws q level self = fetch_recursive_nodes depth nws q level' self"
  "fetch_loop depth nodes q level acc self = fetch_loop depth nodes q level' acc self"
proof (induction depth q index_id level self and depth nws q level self
         and depth nodes q level acc self
       arbitrary: level' and level' and level' rule: resolve_induct)
  case (no_depth q index_id level self)
  show ?case by simp
next
  case (query_index depth q index_id level self)
  show ?case
    by (simp add: query_index_Suc query_index.IH [where level' = level']
          split: sum.splits)
next
  case (fetch_recursive_nodes depth nws q level self)
  show ?case
    by (cases "node nws")
       (simp_all add: fetch_recursive_nodes.IH [where level' = "level' + 1"])
next
  case (loop_end depth q level acc self)
  show ?case by simp
next
  case (loop_step depth nws nodes q level acc self)
  have head: "fetch_recursive_nodes depth nws q level' self
            = fetch_recursive_nodes depth nws q level self"
    using loop_step.IH(1) [of level'] by simp
  show ?case
    by (simp del: fetch_recursive_nodes.simps add: head loop_step.IH(2) [where level' = level']
          split: option.splits sum.splits prod.splits)
qed

text \<open>
  A bound on the depth that was enough stays enough: an outcome, once there, is the
  outcome for every larger bound.
\<close>

lemma deeper:
  "query_index depth q index_id level self = Some out \<Longrightarrow>
     query_index (Suc depth) q index_id level self = Some out"
  "fetch_recursive_nodes depth nws q level self = Some out2 \<Longrightarrow>
     fetch_recursive_nodes (Suc depth) nws q level self = Some out2"
  "fetch_loop depth nodes q level acc self = Some out3 \<Longrightarrow>
     fetch_loop (Suc depth) nodes q level acc self = Some out3"
proof (induction depth q index_id level self and depth nws q level self
         and depth nodes q level acc self
       arbitrary: out and out2 and out3 rule: resolve_induct)
  case (no_depth q index_id level self)
  then show ?case by simp
next
  case (query_index depth q index_id level self)
  obtain r s' where out: "out = (r, s')" by (cases out)
  from query_index.prems [unfolded out] show ?case
  proof (cases rule: query_index_Suc_cases)
    case (no_engine e)
    then show ?thesis by (simp add: query_index_Suc out)
  next
    case (no_nodes qe e)
    then show ?thesis by (simp add: query_index_Suc out)
  next
    case (plain qe nodes)
    then show ?thesis by (simp add: query_index_Suc out)
  next
    case (loop_raised qe nodes e)
    from loop_raised(1,2,3,4)
    have "fetch_loop (Suc depth) nodes q level ([], []) (at_line_82 q nodes self)
            = Some (Inl e, s')"
      by (rule query_index.IH)
    with loop_raised show ?thesis by (simp add: query_index_Suc [of "Suc depth"] out)
  next
    case (loop_done qe nodes nfs extra s4)
    from loop_done(1,2,3,4)
    have "fetch_loop (Suc depth) nodes q level ([], []) (at_line_82 q nodes self)
            = Some (Inr (nfs, extra), s4)"
      by (rule query_index.IH)
    with loop_done show ?thesis by (simp add: query_index_Suc [of "Suc depth"] out)
  qed
next
  case (fetch_recursive_nodes depth nws q level self)
  obtain r s' where out: "out2 = (r, s')" by (cases out2)
  from fetch_recursive_nodes.prems [unfolded out] show ?case
  proof (cases rule: fetch_recursive_nodes_cases)
    case (text_node t)
    then show ?thesis by (simp add: out)
  next
    case (raised t index_id e)
    from raised(1,2)
    have "query_index (Suc depth) q (Some index_id) (level + 1) self = Some (Inl e, s')"
      by (rule fetch_recursive_nodes.IH)
    with raised show ?thesis by (simp add: out)
  next
    case (expanded t index_id resp)
    from expanded(1,2)
    have "query_index (Suc depth) q (Some index_id) (level + 1) self = Some (Inr resp, s')"
      by (rule fetch_recursive_nodes.IH)
    with expanded show ?thesis by (simp add: out)
  qed
next
  case (loop_end depth q level acc self)
  then show ?case by simp
next
  case (loop_step depth nws nodes q level acc self)
  obtain r s' where out: "out3 = (r, s')" by (cases out3)
  from loop_step.prems [unfolded out] show ?case
  proof (cases rule: fetch_loop_Cons_cases)
    case (raised e)
    from raised(1)
    have "fetch_recursive_nodes (Suc depth) nws q level self = Some (Inl e, s')"
      by (rule loop_step.IH(1))
    with raised show ?thesis by (simp del: fetch_recursive_nodes.simps add: out)
  next
    case (continued nws' extra self')
    from continued(1)
    have 1: "fetch_recursive_nodes (Suc depth) nws q level self = Some (Inr (nws', extra), self')"
      by (rule loop_step.IH(1))
    from continued(1,2)
    have "fetch_loop (Suc depth) nodes q level (fst acc @ [nws'], snd acc @ extra) self'
            = Some (r, s')"
      by (rule loop_step.IH(2))
    with 1 show ?thesis by (simp del: fetch_recursive_nodes.simps add: out)
  qed
qed

lemma deeper_le:
  "depth \<le> depth' \<Longrightarrow> query_index depth q index_id level self = Some out \<Longrightarrow>
     query_index depth' q index_id level self = Some out"
  by (induction depth' rule: dec_induct) (simp_all add: deeper(1))


text \<open>
  An index whose first retrieved node is a placeholder for the index itself: however
  large the bound on the depth, the query exceeds it.
\<close>

lemma self_reference_diverges:
  assumes qe: "get_query_engine self index_id = Inr qe"
    and rec: "recursive self"
    and nodes: "retrieve qe q = Inr (nws # nodes)"
    and nws: "node nws = IndexNode t index_id"
    and id: "index_id \<noteq> []"
  shows "configuration s = configuration self \<Longrightarrow>
           query_index depth q (Some index_id) level s = None"
proof (induction depth arbitrary: s level)
  case 0
  show ?case by simp
next
  case (Suc depth)
  have d: "default_index_id s (Some index_id) = index_id"
    using id by (simp add: default_index_id_def)
  have g: "get_query_engine s index_id = Inr qe"
    using get_query_engine_configuration [OF Suc.prems] qe by simp
  have r: "recursive s" using recursive_configuration [OF Suc.prems] rec by simp
  have "configuration (at_line_82 q (nws # nodes) s) = configuration self"
    using Suc.prems by (simp add: configuration_at_line_82)
  then have "query_index depth q (Some index_id) (level + 1) (at_line_82 q (nws # nodes) s) = None"
    by (rule Suc.IH)
  with nws have "fetch_loop depth (nws # nodes) q level ([], []) (at_line_82 q (nws # nodes) s) = None"
    by simp
  with d g r nodes show ?case by (simp add: query_index_Suc)
qed

lemma cyclic_diverges: "query_index depth q None level cyclic = None"
proof -
  have qe: "get_query_engine cyclic ''C'' = Inr (echo_engine [see_C])"
    by (simp add: engine_defs cyclic_def cyclic_graph_def index_C_def index_lookup_def)
  have rec: "recursive cyclic" by (simp add: cyclic_def init_def)
  have nodes: "retrieve (echo_engine [see_C]) q = Inr [see_C]" by (simp add: echo_engine_def)
  have nws: "node see_C = IndexNode [] ''C''" by (simp add: see_C_def)
  have "query_index depth q (Some ''C'') level cyclic = None"
    by (rule self_reference_diverges [OF qe rec nodes nws]) simp_all
  moreover have "query_index depth q (Some ''C'') level cyclic = query_index depth q None level cyclic"
    by (cases depth) (simp_all add: query_index_Suc default_index_id_def cyclic_def init_def cyclic_graph_def)
  ultimately show ?thesis by simp
qed

section \<open>Unknown identifiers\<close>

lemma absent_index_raises:
  assumes "index_id \<noteq> []" and "custom_query_engines self index_id = None"
    and "get_index (graph self) index_id = Inl err"
  shows "query_index (Suc depth) q (Some index_id) level self
           = Some (Inl err, at_line_63 q self)"
  using assms
  by (simp add: query_index_Suc default_index_id_def get_query_engine_def)

lemma fetch_absent_index:
  assumes "node nws = IndexNode t index_id"
    and "index_id \<noteq> []" and "custom_query_engines self index_id = None"
    and "get_index (graph self) index_id = Inl err"
  shows "fetch_recursive_nodes depth nws q level self \<noteq> Some (Inr x, s')"
  using assms absent_index_raises [OF assms(2,3,4)]
  by (cases depth) simp_all

lemma fetch_loop_absent_index:
  assumes nws: "node nws = IndexNode t index_id"
    and id: "index_id \<noteq> []"
  shows "nws \<in> set nodes \<Longrightarrow> custom_query_engines self index_id = None \<Longrightarrow>
           get_index (graph self) index_id = Inl err \<Longrightarrow>
           fetch_loop depth nodes q level acc self \<noteq> Some (Inr x, s')"
proof (induction nodes arbitrary: acc self)
  case Nil
  then show ?case by simp
next
  case (Cons n nodes)
  show ?case
  proof
    assume "fetch_loop depth (n # nodes) q level acc self = Some (Inr x, s')"
    then show False
    proof (cases rule: fetch_loop_Cons_cases)
      case (raised e)
      then show ?thesis by simp
    next
      case (continued nws' extra self')
      have n: "n \<noteq> nws"
        using fetch_absent_index [OF nws id Cons.prems(2,3)] continued(1) by blast
      have c: "configuration self' = configuration self"
        using continued(1) by (rule configuration_resolve(2))
      have "custom_query_engines self' index_id = None"
        and "get_index (graph self') index_id = Inl err"
        using c Cons.prems(2,3) by (simp_all add: configuration_def)
      with n Cons.prems(1) continued(2) Cons.IH show ?thesis by auto
    qed
  qed
qed


lemma configuration_expansions:
  assumes "expansions depth nodes q level self = Some (r, self')"
  shows "configuration self' = configuration self"
proof -
  from assms have "\<exists>r'. fetch_loop depth nodes q level ([], []) self = Some (r', self')"
    by (cases r) (simp_all add: fetch_loop_expansions)
  then show ?thesis using configuration_resolve(3) by blast
qed

lemma fetch_loop_prefix:
  "fetch_loop depth (before @ nodes) q level acc self =
     (case expansions depth before q level self of
        None \<Rightarrow> None
      | Some (Inl e, self') \<Rightarrow> Some (Inl e, self')
      | Some (Inr expanded, self') \<Rightarrow>
          fetch_loop depth nodes q level
            (fst acc @ fragments_for_synthesis expanded,
             snd acc @ additional_sources expanded) self')"
proof (induction before arbitrary: acc self)
  case Nil
  show ?case by (simp add: fragments_for_synthesis_def additional_sources_def)
next
  case (Cons nws before)
  show ?case
  proof (cases "fetch_recursive_nodes depth nws q level self")
    case None
    then show ?thesis by (simp del: fetch_recursive_nodes.simps)
  next
    case (Some outcome)
    obtain r self' where outcome: "outcome = (r, self')" by (cases outcome)
    show ?thesis
    proof (cases r)
      case (Inl e)
      with Some outcome show ?thesis by (simp del: fetch_recursive_nodes.simps)
    next
      case (Inr expanded)
      obtain nws' extra where expanded: "expanded = (nws', extra)" by (cases expanded)
      from Some outcome Inr expanded show ?thesis
        by (simp del: fetch_recursive_nodes.simps
              add: Cons.IH fragments_for_synthesis_def additional_sources_def
              split: option.splits sum.splits prod.splits)
    qed
  qed
qed

section \<open>Failure, termination and the state\<close>

text \<open>
  C5, as the code has it. Let \<open>index_id\<close> be an identifier that is not empty, for which
  the graph's \<^verbatim>\<open>get_index\<close> raises (the graph does not have it) and for which no custom
  query engine is registered. Resolving it directly raises what the graph raised, before
  anything is retrieved or synthesized. With recursion enabled, a resolve whose retrieved
  nodes hold a placeholder for it never returns a response; and when the expansions of
  the nodes before that placeholder return, whatever those nodes are, it raises what the
  graph raised.

  The specification's sentence, read without these conditions, fails in three ways, each
  shown after the theorem: an identifier that has a custom query engine is never looked up in the graph
  (line 64), the empty identifier is replaced by the root (line 58), and without
  recursion a placeholder is not resolved at all (line 82).
\<close>

theorem unknown_index_id_fails:
  "(index_id \<noteq> [] \<and> custom_query_engines self index_id = None \<and>
    get_index (graph self) index_id = Inl err \<longrightarrow>
      query_index (Suc depth) q (Some index_id) level self =
        Some (Inl err, at_line_63 q self))
   \<and> (index_id \<noteq> [] \<and> custom_query_engines self index_id = None \<and>
        get_index (graph self) index_id = Inl err \<and>
        recursive self \<and> get_query_engine self (default_index_id self start) = Inr qe \<and>
        retrieve qe q = Inr nodes \<and> nws \<in> set nodes \<and> node nws = IndexNode t index_id \<longrightarrow>
      query_index depth q start level self \<noteq> Some (Inr resp, self'))
   \<and> (index_id \<noteq> [] \<and> custom_query_engines self index_id = None \<and>
        get_index (graph self) index_id = Inl err \<and>
        recursive self \<and> get_query_engine self (default_index_id self start) = Inr qe \<and>
        retrieve qe q = Inr (before @ nws # rest) \<and>
        map_option fst (expansions (Suc depth) before q level
                          (at_line_82 q (before @ nws # rest) self)) = Some (Inr expanded) \<and>
        node nws = IndexNode t index_id \<longrightarrow>
      map_option fst (query_index (Suc (Suc depth)) q start level self) =
        Some (Inl err))"
proof (intro conjI impI; elim conjE)
  assume "index_id \<noteq> []" "custom_query_engines self index_id = None"
    "get_index (graph self) index_id = Inl err"
  then show "query_index (Suc depth) q (Some index_id) level self =
      Some (Inl err, at_line_63 q self)"
    by (rule absent_index_raises)
next
  assume id: "index_id \<noteq> []" and c: "custom_query_engines self index_id = None"
    and g: "get_index (graph self) index_id = Inl err"
    and rec: "recursive self"
    and qe: "get_query_engine self (default_index_id self start) = Inr qe"
    and nodes: "retrieve qe q = Inr nodes" and mem: "nws \<in> set nodes"
    and nws: "node nws = IndexNode t index_id"
  have conf: "configuration (at_line_82 q nodes self) = configuration self"
    by (rule configuration_at_line_82)
  have c3: "custom_query_engines (at_line_82 q nodes self) index_id = None"
    and g3: "get_index (graph (at_line_82 q nodes self)) index_id = Inl err"
    using conf c g by (simp_all add: configuration_def)
  show "query_index depth q start level self \<noteq> Some (Inr resp, self')"
  proof (cases depth)
    case 0
    then show ?thesis by simp
  next
    case (Suc d)
    show ?thesis
    proof
      assume "query_index depth q start level self = Some (Inr resp, self')"
      then have "query_index (Suc d) q start level self = Some (Inr resp, self')"
        using Suc by simp
      then show False
      proof (cases rule: query_index_Suc_cases)
        case (plain qe' nodes')
        with rec show ?thesis by simp
      next
        case (loop_done qe' nodes' nfs extra s4)
        with qe nodes have "nodes' = nodes" by simp
        with loop_done(4) fetch_loop_absent_index [OF nws id mem c3 g3]
        show ?thesis by blast
      qed simp_all
    qed
  qed
next
  assume id: "index_id \<noteq> []" and c: "custom_query_engines self index_id = None"
    and g: "get_index (graph self) index_id = Inl err"
    and rec: "recursive self"
    and qe: "get_query_engine self (default_index_id self start) = Inr qe"
    and nodes: "retrieve qe q = Inr (before @ nws # rest)"
    and ex: "map_option fst (expansions (Suc depth) before q level
                          (at_line_82 q (before @ nws # rest) self)) = Some (Inr expanded)"
    and nws: "node nws = IndexNode t index_id"
  let ?s3 = "at_line_82 q (before @ nws # rest) self"
  from ex obtain s where
    s: "expansions (Suc depth) before q level ?s3 = Some (Inr expanded, s)"
    by auto
  have conf: "configuration s = configuration self"
    using configuration_expansions [OF s] by (simp add: configuration_at_line_82)
  have cs: "custom_query_engines s index_id = None"
    and gs: "get_index (graph s) index_id = Inl err"
    using conf c g by (simp_all add: configuration_def)
  have "query_index (Suc depth) q (Some index_id) (level + 1) s =
          Some (Inl err, at_line_63 q s)"
    using id cs gs by (rule absent_index_raises)
  with nws have "fetch_recursive_nodes (Suc depth) nws q level s =
          Some (Inl err, at_line_63 q s)"
    by simp
  then have "fetch_loop (Suc depth) (nws # rest) q level acc s =
          Some (Inl err, at_line_63 q s)" for acc
    by (simp del: fetch_recursive_nodes.simps)
  then have "fetch_loop (Suc depth) (before @ nws # rest) q level ([], []) ?s3 =
          Some (Inl err, at_line_63 q s)"
    by (simp add: fetch_loop_prefix s)
  with rec qe nodes show "map_option fst (query_index (Suc (Suc depth)) q start level self) =
      Some (Inl err)"
    by (simp add: query_index_Suc [of "Suc depth"])
qed

theorem unknown_index_id_fails_witness:
  "''Y'' \<noteq> [] \<and> custom_query_engines scenario ''Y'' = None
   \<and> get_index (graph scenario) ''Y'' = Inl (KeyError ''Y'')
   \<and> query_index (Suc 0) q0 (Some ''Y'') 0 scenario =
       Some (Inl (KeyError ''Y''), at_line_63 q0 scenario)
   \<and> custom_query_engines dangling ''Y'' = None
   \<and> get_index (graph dangling) ''Y'' = Inl (KeyError ''Y'')
   \<and> recursive dangling
   \<and> get_query_engine dangling (default_index_id dangling None) = Inr (echo_engine [hello, see_Y])
   \<and> retrieve (echo_engine [hello, see_Y]) q0 = Inr [hello, see_Y]
   \<and> see_Y \<in> set [hello, see_Y]
   \<and> node see_Y = IndexNode [] ''Y''
   \<and> query_index (Suc (Suc 0)) q0 None 0 dangling \<noteq> Some (Inr answer_B, dangling)
   \<and> custom_query_engines mixed ''Y'' = None
   \<and> get_index (graph mixed) ''Y'' = Inl (KeyError ''Y'')
   \<and> recursive mixed
   \<and> get_query_engine mixed (default_index_id mixed None) = Inr (echo_engine [see_B, see_Y, see_B])
   \<and> retrieve (echo_engine [see_B, see_Y, see_B]) q0 = Inr ([see_B] @ see_Y # [see_B])
   \<and> is_IndexNode (node see_B)
   \<and> map_option fst (expansions (Suc 0) [see_B] q0 0
                        (at_line_82 q0 ([see_B] @ see_Y # [see_B]) mixed)) =
       Some (Inr [(\<lparr> node = TextNode ''hello world'', score = 0.9 \<rparr>, [hello])])
   \<and> map_option fst (query_index (Suc (Suc 0)) q0 None 0 mixed) = Some (Inl (KeyError ''Y''))"
proof -
  have id: "''Y'' \<noteq> []" by simp
  have c: "custom_query_engines scenario ''Y'' = None" by (simp add: scenario_def init_def)
  have g: "get_index (graph scenario) ''Y'' = Inl (KeyError ''Y'')"
    by (simp add: scenario_def init_def scenario_graph_def index_lookup_def)
  have c': "custom_query_engines dangling ''Y'' = None" by (simp add: dangling_def init_def)
  have g': "get_index (graph dangling) ''Y'' = Inl (KeyError ''Y'')"
    by (simp add: dangling_def init_def dangling_graph_def index_lookup_def)
  have rec: "recursive dangling" by (simp add: dangling_def init_def)
  have qe: "get_query_engine dangling (default_index_id dangling None)
              = Inr (echo_engine [hello, see_Y])"
    by (simp add: engine_defs dangling_def dangling_graph_def index_D_def index_lookup_def)
  have nodes: "retrieve (echo_engine [hello, see_Y]) q0 = Inr [hello, see_Y]"
    by (simp add: echo_engine_def)
  have mem: "see_Y \<in> set [hello, see_Y]" by simp
  have nws: "node see_Y = IndexNode [] ''Y''" by (simp add: see_Y_def)
  note md = mixed_def mixed_graph_def index_M_def init_def index_lookup_def
  have cm: "custom_query_engines mixed ''Y'' = None" by (simp add: md)
  have gm: "get_index (graph mixed) ''Y'' = Inl (KeyError ''Y'')" by (simp add: md)
  have recm: "recursive mixed" by (simp add: md)
  have qem: "get_query_engine mixed (default_index_id mixed None)
               = Inr (echo_engine [see_B, see_Y, see_B])"
    by (simp add: engine_defs md)
  have nodesm: "retrieve (echo_engine [see_B, see_Y, see_B]) q0 = Inr ([see_B] @ see_Y # [see_B])"
    by (simp add: echo_engine_def)
  have iB: "is_IndexNode (node see_B)" by (simp add: see_B_def)
  have exm: "map_option fst (expansions (Suc 0) [see_B] q0 0
                        (at_line_82 q0 ([see_B] @ see_Y # [see_B]) mixed)) =
       Some (Inr [(\<lparr> node = TextNode ''hello world'', score = 0.9 \<rparr>, [hello])])"
    by (simp add: query_index_Suc engine_defs example_defs md)
  have 1: "query_index (Suc 0) q0 (Some ''Y'') 0 scenario =
       Some (Inl (KeyError ''Y''), at_line_63 q0 scenario)"
    using unknown_index_id_fails
      [where index_id = "''Y''" and self = scenario and depth = 0 and q = q0 and level = 0
         and err = "KeyError ''Y''"]
      id c g
    by blast
  have 2: "query_index (Suc (Suc 0)) q0 None 0 dangling \<noteq> Some (Inr answer_B, dangling)"
    using unknown_index_id_fails
      [where index_id = "''Y''" and self = dangling and depth = "Suc (Suc 0)" and q = q0
         and level = 0 and start = None and qe = "echo_engine [hello, see_Y]"
         and nodes = "[hello, see_Y]" and nws = see_Y and t = "[]"
         and resp = answer_B and self' = dangling and err = "KeyError ''Y''"]
      id c' g' rec qe nodes mem nws
    by blast
  have 3: "map_option fst (query_index (Suc (Suc 0)) q0 None 0 mixed)
             = Some (Inl (KeyError ''Y''))"
    using unknown_index_id_fails
      [where index_id = "''Y''" and self = mixed and depth = 0 and q = q0
         and level = 0 and start = None and qe = "echo_engine [see_B, see_Y, see_B]"
         and before = "[see_B]" and nws = see_Y and rest = "[see_B]" and t = "[]"
         and expanded = "[(\<lparr> node = TextNode ''hello world'', score = 0.9 \<rparr>, [hello])]"
         and err = "KeyError ''Y''"]
      id cm gm recm qem nodesm exm nws
    by blast
  from id c g 1 c' g' rec qe nodes mem nws 2 cm gm recm qem nodesm iB exm 3
  show ?thesis by blast
qed

theorem unknown_index_id_counterexample:
  "get_index (graph scenario_custom) ''X'' = Inl (KeyError ''X'')
   \<and> map_option fst (query_index (Suc 0) q0 (Some ''X'') 0 scenario_custom) =
       Some (Inr \<lparr> response = ''custom X'', source_nodes = [hello] \<rparr>)
   \<and> get_index (graph scenario) [] = Inl (KeyError [])
   \<and> map_option fst (query_index (Suc (Suc 0)) q0 (Some []) 0 scenario) = Some (Inr answer_A)
   \<and> node see_Y = IndexNode [] ''Y''
   \<and> get_index (graph dangling_flat) ''Y'' = Inl (KeyError ''Y'')
   \<and> custom_query_engines dangling_flat ''Y'' = None
   \<and> map_option fst (query_index (Suc 0) q0 None 0 dangling_flat) =
       Some (Inr \<lparr> response = ''hello'', source_nodes = [hello, see_Y] \<rparr>)"
proof -
  have 1: "get_index (graph scenario_custom) ''X'' = Inl (KeyError ''X'')"
    by (simp add: scenario_custom_def init_def scenario_graph_def index_lookup_def)
  have 2: "map_option fst (query_index (Suc 0) q0 (Some ''X'') 0 scenario_custom) =
       Some (Inr \<lparr> response = ''custom X'', source_nodes = [hello] \<rparr>)"
    by (simp add: query_index_Suc engine_defs example_defs scenario_custom_def)
  have 3: "get_index (graph scenario) [] = Inl (KeyError [])"
    by (simp add: scenario_def init_def scenario_graph_def index_lookup_def)
  have 4: "map_option fst (query_index (Suc (Suc 0)) q0 (Some []) 0 scenario) = Some (Inr answer_A)"
    by (simp add: query_index_Suc engine_defs example_defs answer_A_def)
  have 5: "node see_Y = IndexNode [] ''Y''" by (simp add: see_Y_def)
  have 6: "get_index (graph dangling_flat) ''Y'' = Inl (KeyError ''Y'')"
    by (simp add: dangling_flat_def init_def dangling_graph_def index_lookup_def)
  have 7: "custom_query_engines dangling_flat ''Y'' = None"
    by (simp add: dangling_flat_def init_def)
  have 8: "map_option fst (query_index (Suc 0) q0 None 0 dangling_flat) =
       Some (Inr \<lparr> response = ''hello'', source_nodes = [hello, see_Y] \<rparr>)"
    by (simp add: query_index_Suc engine_defs example_defs
          dangling_flat_def dangling_graph_def index_D_def see_Y_def)
  from 1 2 3 4 5 6 7 8 show ?thesis by blast
qed

text \<open>
  C6. Nothing bounds the depth of the recursion. The level is passed on and never
  consulted: the outcome of \<open>query_index\<close> is the same for every level. And the graph
  \<open>cyclic_graph\<close>, whose index \<open>C\<close> retrieves a placeholder for \<open>C\<close>, is one on which
  a query never returns: whatever bound is put on the depth of the calls, the query
  exceeds it.
\<close>

theorem no_depth_limit:
  "query_index depth q index_id level self = query_index depth q index_id level' self
   \<and> root_id (graph cyclic) = ''C''
   \<and> get_query_engine cyclic ''C'' = Inr (echo_engine [see_C])
   \<and> retrieve (echo_engine [see_C]) q = Inr [see_C]
   \<and> node see_C = IndexNode [] ''C''
   \<and> (\<forall>d. query_index d q None 0 cyclic = None)
   \<and> (\<forall>d. query d q cyclic = None)
   \<and> (\<forall>d. aquery d q cyclic = None)"
proof -
  have 1: "query_index depth q index_id level self = query_index depth q index_id level' self"
    by (rule level_irrelevant(1))
  have 2: "root_id (graph cyclic) = ''C''" by (simp add: cyclic_def init_def cyclic_graph_def)
  have 3: "get_query_engine cyclic ''C'' = Inr (echo_engine [see_C])"
    by (simp add: engine_defs cyclic_def cyclic_graph_def index_C_def index_lookup_def)
  have 4: "retrieve (echo_engine [see_C]) q = Inr [see_C]" by (simp add: echo_engine_def)
  have 5: "node see_C = IndexNode [] ''C''" by (simp add: see_C_def)
  have 6: "\<forall>d. query_index d q None 0 cyclic = None" by (simp add: cyclic_diverges)
  then have 7: "\<forall>d. query d q cyclic = None" and 8: "\<forall>d. aquery d q cyclic = None"
    by (simp_all add: query_def aquery_def)
  from 1 2 3 4 5 6 7 8 show ?thesis by blast
qed

text \<open>
  C9. A query writes to the callback manager only. Whatever \<open>query_index\<close>,
  \<open>query\<close> or \<open>aquery\<close> return or raise, the graph, the registry of custom query
  engines, the recursion flag and the top-k of the object are what they were. And a
  resolve depends on nothing an earlier one left behind: two objects that agree on these
  four attributes give the same response to the same arguments.
\<close>

theorem query_keeps_configuration:
  "(query_index depth q index_id level self = Some (r, self') \<longrightarrow>
      graph self' = graph self \<and> custom_query_engines self' = custom_query_engines self \<and>
      recursive self' = recursive self \<and> similarity_top_k self' = similarity_top_k self)
   \<and> (query depth q self = Some (r, self') \<longrightarrow>
      graph self' = graph self \<and> custom_query_engines self' = custom_query_engines self \<and>
      recursive self' = recursive self \<and> similarity_top_k self' = similarity_top_k self)
   \<and> (aquery depth q self = Some (r, self') \<longrightarrow>
      graph self' = graph self \<and> custom_query_engines self' = custom_query_engines self \<and>
      recursive self' = recursive self \<and> similarity_top_k self' = similarity_top_k self)
   \<and> (graph other = graph self \<and> custom_query_engines other = custom_query_engines self \<and>
        recursive other = recursive self \<and> similarity_top_k other = similarity_top_k self \<longrightarrow>
      map_option fst (query_index depth q index_id level other) =
      map_option fst (query_index depth q index_id level self))"
proof -
  have frame: "graph s' = graph s \<and> custom_query_engines s' = custom_query_engines s \<and>
      recursive s' = recursive s \<and> similarity_top_k s' = similarity_top_k s"
    if "query_index depth q i l s = Some (r, s')" for i l s s'
    using configuration_resolve(1) [OF that] by (simp add: configuration_def)
  have same: "map_option fst (query_index depth q index_id level other) =
      map_option fst (query_index depth q index_id level self)"
    if "graph other = graph self \<and> custom_query_engines other = custom_query_engines self \<and>
        recursive other = recursive self \<and> similarity_top_k other = similarity_top_k self"
    by (rule result_configuration(1)) (simp add: configuration_def that)
  from frame same show ?thesis
    unfolding query_def aquery_def by blast
qed

theorem query_keeps_configuration_witness:
  "query_index (Suc (Suc 0)) q0 None 0 scenario = Some (Inr answer_A, scenario_after)
   \<and> query (Suc (Suc 0)) q0 scenario = Some (Inr answer_A, scenario_after)
   \<and> aquery (Suc (Suc 0)) q0 scenario = Some (Inr answer_A, scenario_after)
   \<and> graph scenario_after = graph scenario
   \<and> custom_query_engines scenario_after = custom_query_engines scenario
   \<and> recursive scenario_after = recursive scenario
   \<and> similarity_top_k scenario_after = similarity_top_k scenario
   \<and> callback_manager scenario = []
   \<and> callback_manager scenario_after = scenario_log
   \<and> map_option fst (query_index (Suc (Suc 0)) q0 None 0 scenario_after) =
       map_option fst (query_index (Suc (Suc 0)) q0 None 0 scenario)"
proof -
  have 1: "query_index (Suc (Suc 0)) q0 None 0 scenario = Some (Inr answer_A, scenario_after)"
    by (simp add: query_index_Suc engine_defs example_defs
          answer_A_def scenario_log_def scenario_after_def)
  then have 2: "query (Suc (Suc 0)) q0 scenario = Some (Inr answer_A, scenario_after)"
    and 3: "aquery (Suc (Suc 0)) q0 scenario = Some (Inr answer_A, scenario_after)"
    by (simp_all add: query_def aquery_def)
  note T = query_keeps_configuration
    [where depth = "Suc (Suc 0)" and q = q0 and index_id = None and level = 0
       and self = scenario and r = "Inr answer_A" and self' = scenario_after
       and other = scenario_after]
  from T 1 have 4: "graph scenario_after = graph scenario
      \<and> custom_query_engines scenario_after = custom_query_engines scenario
      \<and> recursive scenario_after = recursive scenario
      \<and> similarity_top_k scenario_after = similarity_top_k scenario"
    by blast
  with T have 5: "map_option fst (query_index (Suc (Suc 0)) q0 None 0 scenario_after) =
       map_option fst (query_index (Suc (Suc 0)) q0 None 0 scenario)"
    by blast
  have 6: "callback_manager scenario = []"
    by (simp add: scenario_def init_def scenario_graph_def index_lookup_def)
  have 7: "callback_manager scenario_after = scenario_log" by (simp add: scenario_after_def)
  from 1 2 3 4 5 6 7 show ?thesis by blast
qed

end
